theory Spec2Isabelle
  imports Complex_Main "HOL-Library.Log_Nat"
begin

section \<open>JavaScript numbers\<close>

text \<open>
  The components compute with the JavaScript Number type, the doubles of IEEE 754. A
  finite double is a rational, and is kept as one; the four values that are no
  rationals are constructors of their own: the negative zero, the two infinities and
  NaN. \<open>Num 0\<close> is the positive zero.
\<close>

datatype jsnum = Num rat | NegZero | PosInf | NegInf | NaN

fun val :: "jsnum \<Rightarrow> rat" where
  "val (Num q) = q"
| "val NegZero = 0"
| "val PosInf = 0"
| "val NegInf = 0"
| "val NaN = 0"

fun is_zero :: "jsnum \<Rightarrow> bool" where
  "is_zero (Num q) = (q = 0)"
| "is_zero NegZero = True"
| "is_zero PosInf = False"
| "is_zero NegInf = False"
| "is_zero NaN = False"

fun is_inf :: "jsnum \<Rightarrow> bool" where
  "is_inf (Num q) = False"
| "is_inf NegZero = False"
| "is_inf PosInf = True"
| "is_inf NegInf = True"
| "is_inf NaN = False"

fun is_finite :: "jsnum \<Rightarrow> bool" where
  "is_finite (Num q) = True"
| "is_finite NegZero = True"
| "is_finite PosInf = False"
| "is_finite NegInf = False"
| "is_finite NaN = False"

text \<open>The sign bit of a number that is not NaN.\<close>

fun sign_neg :: "jsnum \<Rightarrow> bool" where
  "sign_neg (Num q) = (q < 0)"
| "sign_neg NegZero = True"
| "sign_neg PosInf = False"
| "sign_neg NegInf = True"
| "sign_neg NaN = False"

definition signed_zero :: "bool \<Rightarrow> jsnum" where
  "signed_zero neg = (if neg then NegZero else Num 0)"

definition signed_inf :: "bool \<Rightarrow> jsnum" where
  "signed_inf neg = (if neg then NegInf else PosInf)"

subsection \<open>Rounding to a double\<close>

text \<open>
  An arithmetic operation returns the double nearest to its exact result, the one with
  the even significand when two are equally near. \<open>ilog2 x\<close> is the exponent \<open>e\<close> of a
  positive \<open>x\<close>, with \<open>2^e \<le> x < 2^(e+1)\<close>. The doubles near \<open>x\<close> are the multiples of
  \<open>quantum x\<close>, which is \<open>2^(e-52)\<close>, and \<open>2^(-1074)\<close> for the subnormal numbers below
  \<open>2^(-1022)\<close>. \<open>rnd x\<close> is the nearest of these multiples, and \<open>fl x\<close> the number
  returned: an infinity when \<open>rnd x\<close> has left the range of the doubles, a zero with the
  sign of \<open>x\<close> when it has vanished.
\<close>

definition ilog2 :: "rat \<Rightarrow> int" where
  "ilog2 x =
     (if 1 \<le> x then bitlen \<lfloor>x\<rfloor> - 1
      else (let j = bitlen \<lfloor>1 / x\<rfloor> - 1
            in if 1 / x = 2 powi j then - j else - j - 1))"

definition round_half_even :: "rat \<Rightarrow> int" where
  "round_half_even r =
     (let f = \<lfloor>r\<rfloor>; d = r - of_int f
      in if d < 1 / 2 then f
         else if 1 / 2 < d then f + 1
         else if even f then f else f + 1)"

definition quantum :: "rat \<Rightarrow> rat" where
  "quantum x = 2 powi (max (ilog2 \<bar>x\<bar>) (- 1022) - 52)"

definition rnd :: "rat \<Rightarrow> rat" where
  "rnd x = of_int (round_half_even (x / quantum x)) * quantum x"

definition fl :: "rat \<Rightarrow> jsnum" where
  "fl x =
     (if x = 0 then Num 0
      else if 2 ^ 1024 \<le> \<bar>rnd x\<bar> then signed_inf (x < 0)
      else if rnd x = 0 then signed_zero (x < 0)
      else Num (rnd x))"

subsection \<open>The operations\<close>

text \<open>\<^verbatim>\<open>x * y\<close>: NaN is contagious, infinity times zero is NaN, the sign of a zero
  or an infinity is the exclusive or of the operands' signs; the product of two finite
  numbers is rounded.\<close>

definition js_mul :: "jsnum \<Rightarrow> jsnum \<Rightarrow> jsnum" where
  "js_mul x y =
     (if x = NaN \<or> y = NaN then NaN
      else if (is_inf x \<and> is_zero y) \<or> (is_zero x \<and> is_inf y) then NaN
      else if is_inf x \<or> is_inf y then signed_inf (sign_neg x \<noteq> sign_neg y)
      else if is_zero x \<or> is_zero y then signed_zero (sign_neg x \<noteq> sign_neg y)
      else fl (val x * val y))"

text \<open>\<^verbatim>\<open>x / y\<close>: a division by zero raises nothing; it gives an infinity, or NaN
  when the dividend is a zero too. The quotient of two finite numbers is rounded.\<close>

definition js_div :: "jsnum \<Rightarrow> jsnum \<Rightarrow> jsnum" where
  "js_div x y =
     (if x = NaN \<or> y = NaN then NaN
      else if (is_inf x \<and> is_inf y) \<or> (is_zero x \<and> is_zero y) then NaN
      else if is_inf x \<or> is_zero y then signed_inf (sign_neg x \<noteq> sign_neg y)
      else if is_inf y \<or> is_zero x then signed_zero (sign_neg x \<noteq> sign_neg y)
      else fl (val x / val y))"

text \<open>\<^verbatim>\<open>x + y\<close>: a sum that is zero is the positive zero, unless both operands are
  the negative zero. The sum of two finite numbers is rounded.\<close>

definition js_add :: "jsnum \<Rightarrow> jsnum \<Rightarrow> jsnum" where
  "js_add x y =
     (if x = NaN \<or> y = NaN then NaN
      else if (x = PosInf \<and> y = NegInf) \<or> (x = NegInf \<and> y = PosInf) then NaN
      else if is_inf x then x
      else if is_inf y then y
      else if x = NegZero \<and> y = NegZero then NegZero
      else fl (val x + val y))"

fun js_neg :: "jsnum \<Rightarrow> jsnum" where
  "js_neg (Num q) = (if q = 0 then NegZero else Num (- q))"
| "js_neg NegZero = Num 0"
| "js_neg PosInf = NegInf"
| "js_neg NegInf = PosInf"
| "js_neg NaN = NaN"

text \<open>\<^verbatim>\<open>x - y\<close> is \<^verbatim>\<open>x + (-y)\<close>.\<close>

definition js_sub :: "jsnum \<Rightarrow> jsnum \<Rightarrow> jsnum" where
  "js_sub x y = js_add x (js_neg y)"

text \<open>\<^verbatim>\<open>Math.floor(x)\<close>: the greatest integer not above \<open>x\<close>; zeros, infinities
  and NaN are returned as they are.\<close>

fun Math_floor :: "jsnum \<Rightarrow> jsnum" where
  "Math_floor (Num q) = Num (of_int \<lfloor>q\<rfloor>)"
| "Math_floor NegZero = NegZero"
| "Math_floor PosInf = PosInf"
| "Math_floor NegInf = NegInf"
| "Math_floor NaN = NaN"

text \<open>\<^verbatim>\<open>x >= y\<close>: false as soon as one side is NaN; the two zeros are equal.\<close>

definition js_ge :: "jsnum \<Rightarrow> jsnum \<Rightarrow> bool" where
  "js_ge x y =
     (if x = NaN \<or> y = NaN then False
      else if x = PosInf \<or> y = NegInf then True
      else if x = NegInf \<or> y = PosInf then False
      else val y \<le> val x)"

text \<open>\<^verbatim>\<open>x === y\<close> on numbers: NaN equals nothing, the two zeros are equal.\<close>

definition js_strict_eq :: "jsnum \<Rightarrow> jsnum \<Rightarrow> bool" where
  "js_strict_eq x y =
     (if x = NaN \<or> y = NaN then False
      else if is_zero x \<and> is_zero y then True
      else x = y)"

text \<open>Truthiness of a number: NaN and the two zeros are falsy. \<^verbatim>\<open>x || d\<close> is \<open>x\<close>
  when \<open>x\<close> is truthy and \<open>d\<close> otherwise.\<close>

definition truthy :: "jsnum \<Rightarrow> bool" where
  "truthy x = (x \<noteq> NaN \<and> \<not> is_zero x)"

definition js_or :: "jsnum \<Rightarrow> jsnum \<Rightarrow> jsnum" where
  "js_or x d = (if truthy x then x else d)"

subsection \<open>Whole milliseconds\<close>

text \<open>
  The time values of \<^verbatim>\<open>Date\<close> are whole numbers of milliseconds. Their difference and
  its quotient by the milliseconds of a day are taken exactly in \<^verbatim>\<open>getDaysLate\<close>
  below, with the two operations that follow. The doubles give the same number of
  days as long as the two time values and their difference stay below \<open>2^53\<close>
  milliseconds, some 285000 years, in magnitude: this is the lemma
  \<open>getDaysLate_doubles\<close>. A time value of \<^verbatim>\<open>Date\<close> is at most 8.64e15 in
  magnitude, so that the two agree on every date as long as the clock is within 3.6e14
  milliseconds, some 11000 years, of the epoch: the lemma \<open>getDaysLate_doubles_clock\<close>.
\<close>

definition exact_sub :: "jsnum \<Rightarrow> jsnum \<Rightarrow> jsnum" where
  "exact_sub x y =
     (if x = NaN \<or> y = NaN then NaN
      else if (x = PosInf \<and> y = PosInf) \<or> (x = NegInf \<and> y = NegInf) then NaN
      else if is_inf x then x
      else if is_inf y then js_neg y
      else if x = NegZero \<and> y = Num 0 then NegZero
      else Num (val x - val y))"

definition exact_div :: "jsnum \<Rightarrow> jsnum \<Rightarrow> jsnum" where
  "exact_div x y =
     (if x = NaN \<or> y = NaN then NaN
      else if (is_inf x \<and> is_inf y) \<or> (is_zero x \<and> is_zero y) then NaN
      else if is_inf x \<or> is_zero y then signed_inf (sign_neg x \<noteq> sign_neg y)
      else if is_inf y \<or> is_zero x then signed_zero (sign_neg x \<noteq> sign_neg y)
      else Num (val x / val y))"


section \<open>The builtins the components call\<close>

text \<open>
  \<^verbatim>\<open>parseFloat\<close>, \<^verbatim>\<open>parseInt\<close> and the \<^verbatim>\<open>Date\<close> constructor belong to the
  language, not to the repository. The components are therefore modelled over a record
  of builtins, and every theorem about them holds for whatever these functions return.
  \<open>dateTime b s\<close> stands for \<^verbatim>\<open>new Date(s).getTime()\<close>: a number of milliseconds
  since the epoch, or NaN for an invalid date.
\<close>

record builtins =
  parseFloat :: "string \<Rightarrow> jsnum"
  parseInt :: "string \<Rightarrow> jsnum"
  dateTime :: "string \<Rightarrow> jsnum"

subsection \<open>An executable reading of the builtins\<close>

text \<open>
  For evaluating the components on concrete strings, the builtins are written out after
  the ECMAScript definitions, over ASCII strings: \<^verbatim>\<open>parseInt\<close> without a radix
  (leading white space, a sign, a \<^verbatim>\<open>0x\<close> prefix, the longest run of digits),
  \<^verbatim>\<open>parseFloat\<close> (leading white space, a sign, \<^verbatim>\<open>Infinity\<close> or the longest
  decimal literal with an optional fraction and exponent), and the date-only form
  \<^verbatim>\<open>YYYY-MM-DD\<close> of the date-time string format, which is read as midnight UTC,
  with the date-times \<^verbatim>\<open>YYYY-MM-DDTHH:mm\<close>, \<^verbatim>\<open>YYYY-MM-DDTHH:mm:ss\<close> and
  \<^verbatim>\<open>YYYY-MM-DDTHH:mm:ss.sss\<close> that end in \<^verbatim>\<open>Z\<close> or in an offset
  \<^verbatim>\<open>+HH:mm\<close> or \<^verbatim>\<open>-HH:mm\<close>. A date-time without an offset is read in the local
  time zone, and strings of any other form as the implementation likes: both are
  outside this reading, which gives NaN for them. The two parsers of numbers return
  the double nearest to the value of the literal they read.
\<close>

definition isWhiteSpace :: "char \<Rightarrow> bool" where
  "isWhiteSpace c = (c \<in> set [CHR 0x09, CHR 0x0A, CHR 0x0B, CHR 0x0C, CHR 0x0D, CHR '' ''])"

definition isDigit :: "char \<Rightarrow> bool" where
  "isDigit c = (c \<in> set ''0123456789'')"

definition digitValue :: "char \<Rightarrow> nat" where
  "digitValue c =
     (if c \<in> set ''0123456789'' then of_char c - 48
      else if c \<in> set ''abcdef'' then of_char c - 87
      else if c \<in> set ''ABCDEF'' then of_char c - 55
      else 36)"

definition isRadixDigit :: "nat \<Rightarrow> char \<Rightarrow> bool" where
  "isRadixDigit r c = (digitValue c < r)"

definition digitsValue :: "nat \<Rightarrow> string \<Rightarrow> nat" where
  "digitsValue r ds = foldl (\<lambda>a c. r * a + digitValue c) 0 ds"

definition isSign :: "char \<Rightarrow> bool" where
  "isSign c = (c = CHR ''+'' \<or> c = CHR ''-'')"

definition stripSign :: "string \<Rightarrow> bool \<times> string" where
  "stripSign s =
     (case s of
        [] \<Rightarrow> (False, [])
      | c # t \<Rightarrow> if isSign c then (c = CHR ''-'', t) else (False, s))"

definition js_parseInt :: "string \<Rightarrow> jsnum" where
  "js_parseInt s =
     (let (neg, S1) = stripSign (dropWhile isWhiteSpace s);
          hex = (take 2 S1 = ''0x'' \<or> take 2 S1 = ''0X'');
          R = (if hex then 16 else 10);
          Z = takeWhile (isRadixDigit R) (if hex then drop 2 S1 else S1);
          m = digitsValue R Z
      in if Z = [] then NaN
         else if m = 0 then signed_zero neg
         else if neg then js_neg (fl (of_nat m)) else fl (of_nat m))"

definition exponentPart :: "string \<Rightarrow> int" where
  "exponentPart r =
     (case r of
        [] \<Rightarrow> 0
      | c # t \<Rightarrow>
          if c = CHR ''e'' \<or> c = CHR ''E'' then
            (let (eneg, t1) = stripSign t;
                 ds = takeWhile isDigit t1
             in if ds = [] then 0
                else if eneg then - int (digitsValue 10 ds) else int (digitsValue 10 ds))
          else 0)"

definition scale10 :: "rat \<Rightarrow> int \<Rightarrow> rat" where
  "scale10 m e = (if 0 \<le> e then m * 10 ^ nat e else m / 10 ^ nat (- e))"

definition js_parseFloat :: "string \<Rightarrow> jsnum" where
  "js_parseFloat s =
     (let (neg, S1) = stripSign (dropWhile isWhiteSpace s)
      in if take 8 S1 = ''Infinity'' then signed_inf neg
         else
           (let ip = takeWhile isDigit S1;
                r1 = dropWhile isDigit S1;
                hasDot = (take 1 r1 = ''.'');
                fp = (if hasDot then takeWhile isDigit (drop 1 r1) else []);
                r2 = (if hasDot then dropWhile isDigit (drop 1 r1) else r1);
                m = scale10 (of_nat (digitsValue 10 (ip @ fp)) / 10 ^ length fp) (exponentPart r2)
            in if ip = [] \<and> fp = [] then NaN
               else if m = 0 then signed_zero neg
               else if neg then js_neg (fl m) else fl m))"

text \<open>Days from 1970-01-01 to a date of the proleptic Gregorian calendar.\<close>

definition isLeapYear :: "int \<Rightarrow> bool" where
  "isLeapYear y = (y mod 4 = 0 \<and> (y mod 100 \<noteq> 0 \<or> y mod 400 = 0))"

definition daysInMonth :: "int \<Rightarrow> int \<Rightarrow> int" where
  "daysInMonth y m =
     (if m = 2 then (if isLeapYear y then 29 else 28)
      else if m = 4 \<or> m = 6 \<or> m = 9 \<or> m = 11 then 30 else 31)"

definition daysFromCivil :: "int \<Rightarrow> int \<Rightarrow> int \<Rightarrow> int" where
  "daysFromCivil y m d =
     (let y1 = (if m \<le> 2 then y - 1 else y);
          era = y1 div 400;
          yoe = y1 - era * 400;
          doy = (153 * (if 2 < m then m - 3 else m + 9) + 2) div 5 + d - 1;
          doe = yoe * 365 + yoe div 4 - yoe div 100 + doy
      in era * 146097 + doe - 719468)"

definition msPerDay :: rat where
  "msPerDay = 1000 * 60 * 60 * 24"

definition digitsOf :: "nat \<Rightarrow> string \<Rightarrow> int option" where
  "digitsOf n s =
     (if length s = n \<and> list_all isDigit s then Some (int (digitsValue 10 s)) else None)"

text \<open>The days of \<^verbatim>\<open>YYYY-MM-DD\<close>, for a date of the calendar.\<close>

definition parseDate :: "string \<Rightarrow> int option" where
  "parseDate s =
     (case (digitsOf 4 (take 4 s), digitsOf 2 (take 2 (drop 5 s)), digitsOf 2 (drop 8 s)) of
        (Some y, Some m, Some d) \<Rightarrow>
          if take 1 (drop 4 s) = ''-'' \<and> take 1 (drop 7 s) = ''-''
             \<and> 1 \<le> m \<and> m \<le> 12 \<and> 1 \<le> d \<and> d \<le> daysInMonth y m
          then Some (daysFromCivil y m d) else None
      | _ \<Rightarrow> None)"

text \<open>The milliseconds of \<^verbatim>\<open>HH:mm\<close>, \<^verbatim>\<open>HH:mm:ss\<close> or \<^verbatim>\<open>HH:mm:ss.sss\<close>;
  \<^verbatim>\<open>24:00:00\<close> is the end of the day.\<close>

definition parseTime :: "string \<Rightarrow> int option" where
  "parseTime s =
     (let secs = (if length s = 5 then Some 0
                  else if take 1 (drop 5 s) = '':'' then digitsOf 2 (take 2 (drop 6 s))
                  else None);
          ms = (if length s \<le> 8 then Some 0
                else if take 1 (drop 8 s) = ''.'' then digitsOf 3 (drop 9 s)
                else None)
      in case (digitsOf 2 (take 2 s), digitsOf 2 (take 2 (drop 3 s)), secs, ms) of
           (Some h, Some mi, Some sec, Some f) \<Rightarrow>
             if take 1 (drop 2 s) = '':'' \<and> mi \<le> 59 \<and> sec \<le> 59
                \<and> (h \<le> 23 \<or> (h = 24 \<and> mi = 0 \<and> sec = 0 \<and> f = 0))
             then Some (((h * 60 + mi) * 60 + sec) * 1000 + f) else None
         | _ \<Rightarrow> None)"

text \<open>The milliseconds of the offset \<^verbatim>\<open>Z\<close>, \<^verbatim>\<open>+HH:mm\<close> or \<^verbatim>\<open>-HH:mm\<close>.\<close>

definition parseOffset :: "string \<Rightarrow> int option" where
  "parseOffset s =
     (if s = ''Z'' then Some 0
      else case (digitsOf 2 (take 2 (drop 1 s)), digitsOf 2 (drop 4 s)) of
             (Some h, Some mi) \<Rightarrow>
               if take 1 (drop 3 s) = '':'' \<and> h \<le> 23 \<and> mi \<le> 59 \<and> take 1 s \<in> {''+'', ''-''}
               then Some ((if take 1 s = ''-'' then - 1 else 1) * ((h * 60 + mi) * 60000))
               else None
           | _ \<Rightarrow> None)"

definition js_dateTime :: "string \<Rightarrow> jsnum" where
  "js_dateTime s =
     (case parseDate (take 10 s) of
        None \<Rightarrow> NaN
      | Some days \<Rightarrow>
          if drop 10 s = [] then Num (of_int days * msPerDay)
          else if take 1 (drop 10 s) = ''T'' then
            (let rest = drop 11 s;
                 inTime = (\<lambda>c. c \<notin> set ''Z+-'')
             in case (parseTime (takeWhile inTime rest), parseOffset (dropWhile inTime rest)) of
                  (Some t, Some off) \<Rightarrow> Num (of_int days * msPerDay + of_int t - of_int off)
                | _ \<Rightarrow> NaN)
          else NaN)"

definition js :: builtins where
  "js = \<lparr>parseFloat = js_parseFloat, parseInt = js_parseInt, dateTime = js_dateTime\<rparr>"


section \<open>Loans: the new-loan form\<close>

text \<open>
  The component \<^verbatim>\<open>Loans\<close> keeps the form in its state \<^verbatim>\<open>newLoan\<close>: the numeric
  fields are the strings of the inputs. The frequencies are the members of
  \<^verbatim>\<open>PaymentType\<close> the form offers.
\<close>

datatype PaymentType = DAILY | WEEKLY | MONTHLY

record newLoan =
  client_id :: string
  capital :: string
  interest_rate :: string
  payment_type :: PaymentType
  installments_count :: string
  start_date :: string
  late_fee_enabled :: bool

text \<open>The six numbers both computations bind: \<^verbatim>\<open>capital\<close>, \<^verbatim>\<open>rate\<close>,
  \<^verbatim>\<open>count\<close>, \<^verbatim>\<open>totalInterest\<close>, \<^verbatim>\<open>totalAmount\<close>, \<^verbatim>\<open>installmentValue\<close>.\<close>

record amortization =
  capitalN :: jsnum
  rateN :: jsnum
  countN :: jsnum
  totalInterest :: jsnum
  totalAmount :: jsnum
  installmentValue :: jsnum

text \<open>
  The calculation preview, evaluated at every render of the component:
  \<^verbatim>\<open>
  const capital = parseFloat(newLoan.capital) || 0;
  const rate = parseFloat(newLoan.interest_rate) || 0;
  const count = parseInt(newLoan.installments_count) || 1;
  const totalInterest = capital * (rate / 100);
  const totalAmount = capital + totalInterest;
  const installmentValue = totalAmount / count;
  \<close>
\<close>

definition calculationPreview :: "builtins \<Rightarrow> newLoan \<Rightarrow> amortization" where
  "calculationPreview b f =
     (let capital = js_or (parseFloat b (capital f)) (Num 0);
          rate = js_or (parseFloat b (interest_rate f)) (Num 0);
          count = js_or (parseInt b (installments_count f)) (Num 1);
          totalInterest = js_mul capital (js_div rate (Num 100));
          totalAmount = js_add capital totalInterest;
          installmentValue = js_div totalAmount count
      in \<lparr>capitalN = capital, rateN = rate, countN = count, totalInterest = totalInterest,
          totalAmount = totalAmount, installmentValue = installmentValue\<rparr>)"

text \<open>
  The same six bindings at the head of the \<^verbatim>\<open>try\<close> block of \<^verbatim>\<open>handleCreateLoan\<close>,
  where the parsed values are taken as they come:
  \<^verbatim>\<open>
  const capital = parseFloat(newLoan.capital);
  const rate = parseFloat(newLoan.interest_rate);
  const count = parseInt(newLoan.installments_count);
  const totalInterest = capital * (rate / 100);
  const totalAmount = capital + totalInterest;
  const installmentValue = totalAmount / count;
  \<close>
\<close>

definition handleCreateLoan_locals :: "builtins \<Rightarrow> newLoan \<Rightarrow> amortization" where
  "handleCreateLoan_locals b f =
     (let capital = parseFloat b (capital f);
          rate = parseFloat b (interest_rate f);
          count = parseInt b (installments_count f);
          totalInterest = js_mul capital (js_div rate (Num 100));
          totalAmount = js_add capital totalInterest;
          installmentValue = js_div totalAmount count
      in \<lparr>capitalN = capital, rateN = rate, countN = count, totalInterest = totalInterest,
          totalAmount = totalAmount, installmentValue = installmentValue\<rparr>)"

text \<open>The row handed to the insert into the table \<^verbatim>\<open>loans\<close>. Of the six locals it
  carries \<^verbatim>\<open>capital\<close>, \<^verbatim>\<open>rate\<close> and \<^verbatim>\<open>count\<close>.\<close>

record loan_row =
  row_client_id :: string
  row_capital :: jsnum
  row_interest_rate :: jsnum
  row_payment_type :: PaymentType
  row_installments_count :: jsnum
  row_start_date :: string
  row_late_fee_enabled :: bool
  row_status :: string
  row_created_by :: string

definition loan_row_of :: "builtins \<Rightarrow> newLoan \<Rightarrow> string \<Rightarrow> loan_row" where
  "loan_row_of b f uid =
     (let c = handleCreateLoan_locals b f
      in \<lparr>row_client_id = client_id f, row_capital = capitalN c, row_interest_rate = rateN c,
          row_payment_type = payment_type f, row_installments_count = countN c,
          row_start_date = start_date f, row_late_fee_enabled = late_fee_enabled f,
          row_status = ''ACTIVE'', row_created_by = uid\<rparr>)"

text \<open>
  \<^verbatim>\<open>handleCreateLoan\<close> ends in one of three alerts of failure or in the alert of
  success. The insert is the remote service's: \<open>insertLoan row\<close> is the message of the error
  it reports, if any. \<open>user\<close> is \<^verbatim>\<open>user?.id\<close>. On success the model returns the row
  that was inserted; the updates of the component's own state are left out.
\<close>

datatype loan_alert = SelectClient | NotAuthenticated | CreateFailed string

definition handleCreateLoan ::
  "builtins \<Rightarrow> (loan_row \<Rightarrow> string option) \<Rightarrow> string option \<Rightarrow> newLoan \<Rightarrow> loan_alert + loan_row"
where
  "handleCreateLoan b insertLoan user f =
     (if client_id f = [] then Inl SelectClient
      else case user of
        None \<Rightarrow> Inl NotAuthenticated
      | Some uid \<Rightarrow>
          if uid = [] then Inl NotAuthenticated
          else (case insertLoan (loan_row_of b f uid) of
                  Some msg \<Rightarrow> Inl (CreateFailed msg)
                | None \<Rightarrow> Inr (loan_row_of b f uid)))"


section \<open>LatePayments: days late, the filter and the three styles\<close>

record LatePayment =
  clientId :: jsnum
  clientName :: string
  clientPhone :: string
  totalPending :: jsnum
  oldestDueDate :: string
  lastPaymentDate :: "string option"

text \<open>
  \<^verbatim>\<open>
  const getDaysLate = (date: string) => {
    const diff = new Date().getTime() - new Date(date).getTime();
    return Math.floor(diff / (1000 * 60 * 60 * 24));
  };
  \<close>
  The function takes the date alone and reads the clock itself. In the model the
  reading of the clock, \<^verbatim>\<open>new Date().getTime()\<close>, is the argument \<open>now\<close>: an integer
  number of milliseconds. The difference and the quotient are those of whole
  milliseconds.
\<close>

definition getDaysLate :: "builtins \<Rightarrow> int \<Rightarrow> string \<Rightarrow> jsnum" where
  "getDaysLate b now date =
     (let diff = exact_sub (Num (of_int now)) (dateTime b date)
      in Math_floor (exact_div diff (Num (1000 * 60 * 60 * 24))))"

text \<open>
  The body of the callback of \<^verbatim>\<open>latePayments.filter\<close>, from the days on:
  \<^verbatim>\<open>
  if (filter === 3) return days >= 3;
  if (filter === 7) return days >= 7;
  if (filter === 30) return days >= 30;
  return true;
  \<close>
\<close>

definition filterMatches :: "jsnum \<Rightarrow> jsnum \<Rightarrow> bool" where
  "filterMatches flt days =
     (if js_strict_eq flt (Num 3) then js_ge days (Num 3)
      else if js_strict_eq flt (Num 7) then js_ge days (Num 7)
      else if js_strict_eq flt (Num 30) then js_ge days (Num 30)
      else True)"

text \<open>The list the component shows. All the readings of the clock of one render are
  taken to be the same instant.\<close>

definition filteredLate :: "builtins \<Rightarrow> int \<Rightarrow> jsnum \<Rightarrow> LatePayment list \<Rightarrow> LatePayment list" where
  "filteredLate b now flt latePayments =
     filter (\<lambda>lp. filterMatches flt (getDaysLate b now (oldestDueDate lp))) latePayments"

text \<open>The buttons of the filter: \<^verbatim>\<open>[0, 3, 7, 30].map(...)\<close>, each setting the filter to
  its number; the state starts at 0.\<close>

definition filterButtons :: "int list" where
  "filterButtons = [0, 3, 7, 30]"

text \<open>
  Every card computes
  \<^verbatim>\<open>
  const isCritical = days >= 30;
  const isWarning = days >= 7;
  \<close>
  and picks each of its styles by \<^verbatim>\<open>isCritical ? ... : isWarning ? ... : ...\<close>. The
  three branches of that conditional are the tiers: the first is \<open>CRITICAL\<close> (rose),
  the second \<open>WARNING\<close> (amber), the last \<open>CURRENT\<close>.
\<close>

definition isCritical :: "jsnum \<Rightarrow> bool" where
  "isCritical days = js_ge days (Num 30)"

definition isWarning :: "jsnum \<Rightarrow> bool" where
  "isWarning days = js_ge days (Num 7)"

datatype tier = CURRENT | WARNING | CRITICAL

definition classify :: "jsnum \<Rightarrow> tier" where
  "classify days = (if isCritical days then CRITICAL else if isWarning days then WARNING else CURRENT)"

text \<open>The four styles chosen so: the card's frame, the initial's badge, the amount of
  the debt and the clock icon.\<close>

definition cardClass :: "jsnum \<Rightarrow> string" where
  "cardClass days =
     (if isCritical days then ''shadow-glow-rose border-fin-rose/20''
      else if isWarning days then ''shadow-glow-amber border-fin-amber/20''
      else ''shadow-glow-blue'')"

definition badgeClass :: "jsnum \<Rightarrow> string" where
  "badgeClass days =
     (if isCritical days then ''bg-fin-rose/20 text-fin-rose border-fin-rose/30''
      else if isWarning days then ''bg-fin-amber/20 text-fin-amber border-fin-amber/30''
      else ''bg-white/5 text-slate-300 border-white/10'')"

definition debtClass :: "jsnum \<Rightarrow> string" where
  "debtClass days =
     (if isCritical days then ''text-fin-rose''
      else if isWarning days then ''text-fin-amber''
      else ''text-white'')"

definition clockClass :: "jsnum \<Rightarrow> string" where
  "clockClass days =
     (if isCritical days then ''text-fin-rose''
      else if isWarning days then ''text-fin-amber''
      else ''text-fin-blue'')"

text \<open>The order of the tiers, by severity.\<close>

fun severity :: "tier \<Rightarrow> nat" where
  "severity CURRENT = 0"
| "severity WARNING = 1"
| "severity CRITICAL = 2"


section \<open>LoginPage: the role of a new account\<close>

datatype UserRole = ADMIN | COLLECTOR

text \<open>The state of the page that the sign-up branch of \<^verbatim>\<open>handleSubmit\<close> reads.\<close>

record loginPage =
  username :: string
  password :: string
  name :: string
  phone :: string
  adminCode :: string
  showAdminCode :: bool

text \<open>
  \<^verbatim>\<open>
  const role = (showAdminCode && adminCode === 'admin123') ? UserRole.ADMIN : UserRole.COLLECTOR;
  \<close>
\<close>

definition signUpRole :: "loginPage \<Rightarrow> UserRole" where
  "signUpRole st = (if showAdminCode st \<and> adminCode st = ''admin123'' then ADMIN else COLLECTOR)"

text \<open>The argument of \<^verbatim>\<open>supabase.auth.signUp\<close> and the row inserted into
  \<^verbatim>\<open>profiles\<close>; both carry the role.\<close>

record signUpRequest =
  email :: string
  req_password :: string
  data_name :: string
  data_phone :: string
  data_role :: UserRole

record profile_row =
  profile_id :: string
  profile_name :: string
  profile_phone :: string
  profile_role :: UserRole
  profile_login :: string

definition signUpRequest_of :: "loginPage \<Rightarrow> signUpRequest" where
  "signUpRequest_of st =
     \<lparr>email = username st, req_password = password st, data_name = name st,
      data_phone = phone st, data_role = signUpRole st\<rparr>"

definition profile_row_of :: "string \<Rightarrow> loginPage \<Rightarrow> profile_row" where
  "profile_row_of uid st =
     \<lparr>profile_id = uid, profile_name = name st, profile_phone = phone st,
      profile_role = signUpRole st, profile_login = username st\<rparr>"

text \<open>
  The sign-up branch of \<^verbatim>\<open>handleSubmit\<close>. \<open>signUp\<close> is the remote call: the message
  of its error, or the id of the user it created, if it created one. A failure of the
  insert of the profile is logged and stops nothing, so the insert has no result here.
  The outcome is the message the page shows, with the request sent and the profile row
  written, if any.
\<close>

datatype signUp_outcome =
  SignUpError string
| NoUser signUpRequest
| Created signUpRequest profile_row string

definition handleSubmit_signUp ::
  "(signUpRequest \<Rightarrow> string + string option) \<Rightarrow> loginPage \<Rightarrow> signUp_outcome"
where
  "handleSubmit_signUp signUp st =
     (let role = signUpRole st; req = signUpRequest_of st
      in case signUp req of
           Inl msg \<Rightarrow> SignUpError (if msg = [] then ''Erro ao conectar ao servidor'' else msg)
         | Inr None \<Rightarrow> NoUser req
         | Inr (Some uid) \<Rightarrow>
             Created req (profile_row_of uid st)
               (''Conta '' @ (if role = ADMIN then ''ADMIN'' else [])
                 @ '' criada com sucesso! Verifique seu e-mail para confirmar.''))"


section \<open>Inputs for the examples\<close>

definition exampleLoan :: newLoan where
  "exampleLoan =
     \<lparr>client_id = ''7'', capital = ''1000'', interest_rate = ''10'', payment_type = DAILY,
      installments_count = ''24'', start_date = ''2024-03-01'', late_fee_enabled = True\<rparr>"

definition zeroCountLoan :: newLoan where
  "zeroCountLoan = exampleLoan\<lparr>installments_count := ''0''\<rparr>"

definition negativeCountLoan :: newLoan where
  "negativeCountLoan = exampleLoan\<lparr>installments_count := ''-3''\<rparr>"

definition blankLoan :: newLoan where
  "blankLoan = exampleLoan\<lparr>capital := [], interest_rate := ''abc'', installments_count := []\<rparr>"

definition sevenPercentLoan :: newLoan where
  "sevenPercentLoan =
     exampleLoan\<lparr>capital := ''100'', interest_rate := ''7'', installments_count := ''1''\<rparr>"


definition hugeLoan :: newLoan where
  "hugeLoan =
     exampleLoan\<lparr>capital := ''1e308'', interest_rate := ''1000'', installments_count := ''1''\<rparr>"


definition otherClientLoan :: newLoan where
  "otherClientLoan =
     exampleLoan\<lparr>client_id := ''8'', payment_type := MONTHLY, start_date := ''2024-04-01'',
       late_fee_enabled := False\<rparr>"

text \<open>An insert that the remote service accepts.\<close>

definition acceptLoan :: "loan_row \<Rightarrow> string option" where
  "acceptLoan row = None"

text \<open>A sign-up that the remote service answers with a new user.\<close>

definition acceptSignUp :: "signUpRequest \<Rightarrow> string + string option" where
  "acceptSignUp req = Inr (Some ''user-1'')"

definition adminSignUp :: loginPage where
  "adminSignUp =
     \<lparr>username = ''ana@example.com'', password = ''secret'', name = ''Ana'', phone = ''5511'',
      adminCode = ''admin123'', showAdminCode = True\<rparr>"

text \<open>Noon UTC of 2024-03-15 and of the day after, in milliseconds.\<close>

definition noon_15 :: int where
  "noon_15 = 1710504000000"

definition noon_16 :: int where
  "noon_16 = 1710590400000"

text \<open>The last millisecond before 2024-03-01, midnight UTC.\<close>

definition eve_of_due :: int where
  "eve_of_due = 1709251199999"


section \<open>Facts about rounding\<close>

subsection \<open>Rounding to an integer\<close>

lemma rhe_cases:
  "round_half_even r = \<lfloor>r\<rfloor> \<or> round_half_even r = \<lfloor>r\<rfloor> + 1"
  by (simp add: round_half_even_def Let_def)

lemma rhe_err: "\<bar>of_int (round_half_even r) - r\<bar> \<le> 1 / 2"
proof -
  define d where "d = r - of_int \<lfloor>r\<rfloor>"
  have d: "0 \<le> d" "d < 1" unfolding d_def by linarith+
  have e: "round_half_even r =
      (if d < 1 / 2 then \<lfloor>r\<rfloor> else if 1 / 2 < d then \<lfloor>r\<rfloor> + 1
       else if even \<lfloor>r\<rfloor> then \<lfloor>r\<rfloor> else \<lfloor>r\<rfloor> + 1)"
    by (simp add: round_half_even_def Let_def d_def)
  consider "d < 1 / 2" | "1 / 2 < d" | "d = 1 / 2" by linarith
  then show ?thesis
  proof cases
    case 1
    then have "round_half_even r = \<lfloor>r\<rfloor>" using e by simp
    then show ?thesis using 1 d unfolding d_def by simp
  next
    case 2
    then have "round_half_even r = \<lfloor>r\<rfloor> + 1" using e by simp
    then show ?thesis using 2 d unfolding d_def by simp
  next
    case 3
    then have "round_half_even r = \<lfloor>r\<rfloor> \<or> round_half_even r = \<lfloor>r\<rfloor> + 1" using e by simp
    then show ?thesis using 3 unfolding d_def by auto
  qed
qed

lemma rhe_of_int: "round_half_even (of_int k) = k"
  by (simp add: round_half_even_def Let_def)

lemma rhe_le: "r \<le> of_int K \<Longrightarrow> round_half_even r \<le> K"
proof -
  assume a: "r \<le> of_int K"
  show ?thesis
  proof (cases "r = of_int K")
    case True
    then show ?thesis by (simp add: rhe_of_int)
  next
    case False
    with a have "r < of_int K" by simp
    then have "\<lfloor>r\<rfloor> < K" by (simp add: floor_less_iff)
    then show ?thesis using rhe_cases [of r] by auto
  qed
qed

lemma rhe_ge: "of_int K \<le> r \<Longrightarrow> K \<le> round_half_even r"
proof -
  assume "of_int K \<le> r"
  then have "K \<le> \<lfloor>r\<rfloor>" by (simp add: le_floor_iff)
  then show ?thesis using rhe_cases [of r] by auto
qed

lemma rhe_nearest: "\<bar>r - of_int n\<bar> < 1 / 2 \<Longrightarrow> round_half_even r = n"
proof -
  assume a: "\<bar>r - of_int n\<bar> < 1 / 2"
  have "\<bar>of_int (round_half_even r) - r\<bar> \<le> 1 / 2" by (rule rhe_err)
  with a have "\<bar>(of_int (round_half_even r) :: rat) - of_int n\<bar> < 1" by linarith
  then have "\<bar>round_half_even r - n\<bar> < 1"
    by (metis of_int_1 of_int_abs of_int_diff of_int_less_iff)
  then show ?thesis by simp
qed

lemma rhe_ge_even:
  assumes "even K" and "of_int K - 1 / 2 \<le> r"
  shows "K \<le> round_half_even r"
proof (cases "of_int K \<le> r")
  case True
  then show ?thesis by (rule rhe_ge)
next
  case False
  then have lt: "r < of_int K" by simp
  have "of_int (K - 1) \<le> r" using assms(2) by simp
  then have "K - 1 \<le> \<lfloor>r\<rfloor>" by (simp only: le_floor_iff)
  moreover have "\<lfloor>r\<rfloor> < K" using lt by (simp add: floor_less_iff)
  ultimately have f: "\<lfloor>r\<rfloor> = K - 1" by simp
  have odd: "odd \<lfloor>r\<rfloor>" using assms(1) f by simp
  have d: "1 / 2 \<le> r - of_int \<lfloor>r\<rfloor>" using assms(2) f by simp
  show ?thesis
    using odd d f by (simp add: round_half_even_def Let_def)
qed

lemma rhe_abs_le: "\<bar>r\<bar> \<le> of_int K \<Longrightarrow> \<bar>round_half_even r\<bar> \<le> K"
proof -
  assume a: "\<bar>r\<bar> \<le> of_int K"
  then have "r \<le> of_int K" and "of_int (- K) \<le> r" by (simp_all add: abs_le_iff)
  then have "round_half_even r \<le> K" and "- K \<le> round_half_even r"
    by (simp_all only: rhe_le rhe_ge)
  then show ?thesis by simp
qed

lemma rhe_abs_ge: "of_int K \<le> \<bar>r\<bar> \<Longrightarrow> K \<le> \<bar>round_half_even r\<bar>"
proof (cases "0 \<le> r")
  case True
  assume "of_int K \<le> \<bar>r\<bar>"
  with True have "of_int K \<le> r" by simp
  then have "K \<le> round_half_even r" by (rule rhe_ge)
  then show ?thesis by simp
next
  case False
  assume "of_int K \<le> \<bar>r\<bar>"
  with False have "r \<le> of_int (- K)" by simp
  then have "round_half_even r \<le> - K" by (rule rhe_le)
  then show ?thesis by simp
qed

subsection \<open>Powers of two and the exponent\<close>

lemma powi_nonneg: "0 \<le> e \<Longrightarrow> (2::rat) powi e = 2 ^ nat e"
  by (simp add: power_int_def)

lemma powi_pos: "0 < (2::rat) powi e"
  by simp

lemma powi_Suc: "(2::rat) powi (e + 1) = 2 * 2 powi e"
  by (simp add: power_int_add)

lemma powi_mono: "a \<le> b \<Longrightarrow> (2::rat) powi a \<le> 2 powi b"
  by (rule power_int_increasing) simp_all

lemma powi_strict_mono: "a < b \<Longrightarrow> (2::rat) powi a < 2 powi b"
  by (rule power_int_strict_increasing) simp_all

lemma powi_le_cancel: "(2::rat) powi a \<le> 2 powi b \<Longrightarrow> a \<le> b"
  using powi_strict_mono [of b a] by (cases "a \<le> b") auto

lemma powi_less_cancel: "(2::rat) powi a < 2 powi b \<Longrightarrow> a < b"
  using powi_mono [of b a] by (cases "a < b") auto

lemma powi_split: "(2::rat) powi a = 2 powi (a - b) * 2 powi b"
  using power_int_add [of "2::rat" "a - b" b] by simp

lemma ilog2_bounds:
  assumes "0 < x"
  shows "2 powi ilog2 x \<le> x" and "x < 2 powi (ilog2 x + 1)"
proof -
  have "2 powi ilog2 x \<le> x \<and> x < 2 powi (ilog2 x + 1)"
  proof (cases "1 \<le> x")
    case True
    let ?n = "\<lfloor>x\<rfloor>"
    have n: "0 < ?n" using True by simp
    from bitlen_bounds [OF n]
    have b1: "2 ^ nat (bitlen ?n - 1) \<le> ?n" and b2: "?n < 2 ^ nat (bitlen ?n)" by simp_all
    have bl: "1 \<le> bitlen ?n"
      using n bitlen_eq_zero_iff [of ?n] bitlen_nonneg [of ?n] by linarith
    have e: "ilog2 x = bitlen ?n - 1" using True by (simp add: ilog2_def)
    have "(2::rat) powi (bitlen ?n - 1) = of_int (2 ^ nat (bitlen ?n - 1))"
      using bl by (simp add: powi_nonneg)
    also have "\<dots> \<le> of_int ?n" using b1 by (simp only: of_int_le_iff)
    also have "\<dots> \<le> x" by simp
    finally have l: "2 powi ilog2 x \<le> x" by (simp add: e)
    have "?n + 1 \<le> 2 ^ nat (bitlen ?n)" using b2 by simp
    then have "(of_int (?n + 1) :: rat) \<le> of_int (2 ^ nat (bitlen ?n))"
      by (simp only: of_int_le_iff)
    moreover have "x < of_int (?n + 1)" by simp linarith
    ultimately have "x < of_int (2 ^ nat (bitlen ?n))" by linarith
    also have "\<dots> = 2 powi (ilog2 x + 1)"
      using bl by (simp add: e powi_nonneg)
    finally show ?thesis using l by simp
  next
    case False
    define y where "y = 1 / x"
    let ?n = "\<lfloor>y\<rfloor>"
    have y1: "1 < y" using False assms by (simp add: y_def)
    have xy: "x = 1 / y" by (simp add: y_def)
    have n: "0 < ?n" using y1 by simp
    from bitlen_bounds [OF n]
    have b1: "2 ^ nat (bitlen ?n - 1) \<le> ?n" and b2: "?n < 2 ^ nat (bitlen ?n)" by simp_all
    have bl: "1 \<le> bitlen ?n"
      using n bitlen_eq_zero_iff [of ?n] bitlen_nonneg [of ?n] by linarith
    define j where "j = bitlen ?n - 1"
    have j0: "0 \<le> j" using bl by (simp add: j_def)
    have "(2::rat) powi j = of_int (2 ^ nat j)" using j0 by (simp add: powi_nonneg)
    also have "\<dots> \<le> of_int ?n" using b1 by (simp only: of_int_le_iff j_def)
    also have "\<dots> \<le> y" by simp
    finally have lo: "2 powi j \<le> y" .
    have "?n + 1 \<le> 2 ^ nat (bitlen ?n)" using b2 by simp
    then have "(of_int (?n + 1) :: rat) \<le> of_int (2 ^ nat (bitlen ?n))"
      by (simp only: of_int_le_iff)
    moreover have "y < of_int (?n + 1)" by simp linarith
    ultimately have "y < of_int (2 ^ nat (bitlen ?n))" by linarith
    also have "\<dots> = 2 powi (j + 1)" using bl by (simp add: j_def powi_nonneg)
    finally have hi: "y < 2 powi (j + 1)" .
    have inv: "(2::rat) powi (- k) = 1 / 2 powi k" for k
      by (simp add: power_int_minus_divide)
    show ?thesis
    proof (cases "y = 2 powi j")
      case True
      have e: "ilog2 x = - j" using False True by (simp add: ilog2_def Let_def y_def j_def)
      have "2 powi (- j) = x" using True by (simp add: inv xy)
      moreover have "x < 2 powi (- j + 1)"
        using assms calculation powi_Suc [of "- j"] by linarith
      ultimately show ?thesis by (simp add: e)
    next
      case ne: False
      have e: "ilog2 x = - j - 1" using False ne by (simp add: ilog2_def Let_def y_def j_def)
      have "1 / 2 powi (j + 1) < 1 / y"
        using hi y1 by (simp add: frac_less2)
      then have l: "2 powi (- j - 1) \<le> x"
        using inv [of "j + 1"] by (simp add: xy)
      have "2 powi j < y" using lo ne by simp
      then have "1 / y < 1 / 2 powi j" by (simp add: frac_less2)
      then have "x < 2 powi (- j - 1 + 1)" using inv [of j] by (simp add: xy)
      then show ?thesis using l by (simp add: e)
    qed
  qed
  then show "2 powi ilog2 x \<le> x" and "x < 2 powi (ilog2 x + 1)" by simp_all
qed

lemma ilog2_eqI:
  assumes "2 powi e \<le> x" and "x < 2 powi (e + 1)"
  shows "ilog2 x = e"
proof -
  have x: "0 < x" using assms(1) powi_pos [of e] by linarith
  note b = ilog2_bounds [OF x]
  have "(2::rat) powi e < 2 powi (ilog2 x + 1)" using assms(1) b(2) by linarith
  then have "e < ilog2 x + 1" by (rule powi_less_cancel)
  moreover have "(2::rat) powi ilog2 x < 2 powi (e + 1)" using assms(2) b(1) by linarith
  then have "ilog2 x < e + 1" by (rule powi_less_cancel)
  ultimately show ?thesis by simp
qed

lemma ilog2_le: "x \<noteq> 0 \<Longrightarrow> \<bar>x\<bar> \<le> 2 powi k \<Longrightarrow> ilog2 \<bar>x\<bar> \<le> k"
proof -
  assume "x \<noteq> 0" and a: "\<bar>x\<bar> \<le> 2 powi k"
  then have "0 < \<bar>x\<bar>" by simp
  from ilog2_bounds(1) [OF this] a have "(2::rat) powi ilog2 \<bar>x\<bar> \<le> 2 powi k" by linarith
  then show ?thesis by (rule powi_le_cancel)
qed

lemma ilog2_ge: "2 powi k \<le> \<bar>x\<bar> \<Longrightarrow> k \<le> ilog2 \<bar>x\<bar>"
proof -
  assume a: "2 powi k \<le> \<bar>x\<bar>"
  then have "0 < \<bar>x\<bar>" using powi_pos [of k] by linarith
  from ilog2_bounds(2) [OF this] a have "(2::rat) powi k < 2 powi (ilog2 \<bar>x\<bar> + 1)" by linarith
  then have "k < ilog2 \<bar>x\<bar> + 1" by (rule powi_less_cancel)
  then show ?thesis by simp
qed

subsection \<open>The nearest multiple of the quantum\<close>

lemma quantum_pos [simp]: "0 < quantum x"
  by (simp add: quantum_def)

lemma quantum_nonneg [simp]: "0 \<le> quantum x"
  using quantum_pos [of x] by (simp only: less_imp_le)

lemma quantum_neq0 [simp]: "quantum x \<noteq> 0"
  by (simp add: quantum_def)

lemma quantum_abs [simp]: "\<bar>quantum x\<bar> = quantum x"
  by simp

lemma rnd_0 [simp]: "rnd 0 = 0"
  by (simp add: rnd_def rhe_of_int [of 0, simplified])

lemma abs_rnd: "\<bar>rnd x\<bar> = of_int \<bar>round_half_even (x / quantum x)\<bar> * quantum x"
  by (simp add: rnd_def abs_mult)

lemma rnd_mult_bound:
  assumes "\<bar>x\<bar> \<le> of_int K * quantum x"
  shows "\<bar>rnd x\<bar> \<le> of_int K * quantum x"
proof -
  have "\<bar>x / quantum x\<bar> \<le> of_int K"
    using assms by (simp add: pos_divide_le_eq)
  then have "\<bar>round_half_even (x / quantum x)\<bar> \<le> K" by (rule rhe_abs_le)
  then have "(of_int \<bar>round_half_even (x / quantum x)\<bar> :: rat) \<le> of_int K"
    by (simp only: of_int_le_iff)
  then show ?thesis
    by (simp add: abs_rnd)
qed

lemma rnd_mult_lower:
  assumes "of_int K * quantum x \<le> \<bar>x\<bar>"
  shows "of_int K * quantum x \<le> \<bar>rnd x\<bar>"
proof -
  have "of_int K \<le> \<bar>x / quantum x\<bar>"
    using assms by (simp add: pos_le_divide_eq)
  then have "K \<le> \<bar>round_half_even (x / quantum x)\<bar>" by (rule rhe_abs_ge)
  then have "(of_int K :: rat) \<le> of_int \<bar>round_half_even (x / quantum x)\<bar>"
    by (simp only: of_int_le_iff)
  then show ?thesis
    by (simp add: abs_rnd)
qed

lemma rnd_le_pow:
  assumes "\<bar>x\<bar> \<le> 2 powi k" and "- 1022 \<le> k"
  shows "\<bar>rnd x\<bar> \<le> 2 powi k"
proof (cases "x = 0")
  case True
  then show ?thesis by simp
next
  case False
  define E where "E = max (ilog2 \<bar>x\<bar>) (- 1022)"
  have E: "E \<le> k" using ilog2_le [OF False assms(1)] assms(2) by (simp add: E_def)
  have q: "quantum x = 2 powi (E - 52)" by (simp add: quantum_def E_def)
  have "(2::rat) powi k = 2 powi (k - (E - 52)) * 2 powi (E - 52)" by (rule powi_split)
  also have "(2::rat) powi (k - (E - 52)) = of_int (2 ^ nat (k - (E - 52)))"
    using E by (simp add: powi_nonneg)
  finally have p: "2 powi k = of_int (2 ^ nat (k - (E - 52))) * quantum x" by (simp add: q)
  from rnd_mult_bound [of x "2 ^ nat (k - (E - 52))"] assms(1) show ?thesis
    unfolding p [symmetric] by simp
qed

lemma quantum_normal:
  assumes "2 powi (- 1022) \<le> \<bar>x\<bar>"
  shows "quantum x = 2 powi (ilog2 \<bar>x\<bar> - 52)"
  using ilog2_ge [OF assms] by (simp add: quantum_def max_def)

lemma quantum_normal_pow:
  assumes "2 powi (- 1022) \<le> \<bar>x\<bar>"
  shows "2 powi ilog2 \<bar>x\<bar> = 2 ^ 52 * quantum x"
proof -
  have "(2::rat) powi ilog2 \<bar>x\<bar> = 2 powi (ilog2 \<bar>x\<bar> - (ilog2 \<bar>x\<bar> - 52)) * 2 powi (ilog2 \<bar>x\<bar> - 52)"
    by (rule powi_split)
  then show ?thesis
    by (simp add: quantum_normal [OF assms])
qed

lemma rnd_ge_pow:
  assumes "2 powi k \<le> \<bar>x\<bar>" and "- 1022 \<le> k"
  shows "2 powi k \<le> \<bar>rnd x\<bar>"
proof -
  have n: "2 powi (- 1022) \<le> \<bar>x\<bar>"
    using assms powi_mono [of "- 1022" k] by linarith
  have p: "2 powi ilog2 \<bar>x\<bar> = of_int (2 ^ 52) * quantum x"
    using quantum_normal_pow [OF n] by simp
  have x: "0 < \<bar>x\<bar>" using assms(1) powi_pos [of k] by linarith
  have "of_int (2 ^ 52) * quantum x \<le> \<bar>x\<bar>"
    using ilog2_bounds(1) [OF x] unfolding p .
  then have "of_int (2 ^ 52) * quantum x \<le> \<bar>rnd x\<bar>" by (rule rnd_mult_lower)
  then have "2 powi ilog2 \<bar>x\<bar> \<le> \<bar>rnd x\<bar>" unfolding p .
  moreover have "(2::rat) powi k \<le> 2 powi ilog2 \<bar>x\<bar>"
    using ilog2_ge [OF assms(1)] by (rule powi_mono)
  ultimately show ?thesis by linarith
qed

text \<open>The relative error of a rounding in the normal range is at most \<open>2^(-53)\<close>.\<close>

lemma rnd_err:
  assumes "2 powi (- 1022) \<le> \<bar>x\<bar>"
  shows "\<bar>rnd x - x\<bar> \<le> \<bar>x\<bar> / 2 ^ 53"
proof -
  note p = quantum_normal_pow [OF assms]
  have x: "0 < \<bar>x\<bar>" using assms powi_pos [of "- 1022"] by linarith
  have lo: "2 ^ 52 * quantum x \<le> \<bar>x\<bar>"
    using ilog2_bounds(1) [OF x] unfolding p .
  have "rnd x - x = (of_int (round_half_even (x / quantum x)) - x / quantum x) * quantum x"
    by (simp add: rnd_def algebra_simps)
  then have "\<bar>rnd x - x\<bar> = \<bar>of_int (round_half_even (x / quantum x)) - x / quantum x\<bar> * quantum x"
    by (simp add: abs_mult)
  also have "\<dots> \<le> 1 / 2 * quantum x"
    using rhe_err [of "x / quantum x"] by (simp add: mult_right_mono)
  also have "\<dots> \<le> \<bar>x\<bar> / 2 ^ 53"
    using lo by simp
  finally show ?thesis .
qed

lemma rnd_nonneg: "0 \<le> x \<Longrightarrow> 0 \<le> rnd x"
proof -
  assume "0 \<le> x"
  then have "of_int 0 \<le> x / quantum x" by simp
  then have "0 \<le> round_half_even (x / quantum x)" by (rule rhe_ge)
  then show ?thesis by (simp add: rnd_def)
qed

lemma rnd_eqI:
  assumes "2 powi e \<le> \<bar>x\<bar>" and "\<bar>x\<bar> < 2 powi (e + 1)" and "- 1022 \<le> e"
    and "\<bar>x / 2 powi (e - 52) - of_int n\<bar> < 1 / 2"
  shows "rnd x = of_int n * 2 powi (e - 52)"
proof -
  have "ilog2 \<bar>x\<bar> = e" using assms(1,2) by (rule ilog2_eqI)
  then have q: "quantum x = 2 powi (e - 52)" using assms(3) by (simp add: quantum_def)
  show ?thesis
    unfolding rnd_def q using rhe_nearest [OF assms(4)] by simp
qed

lemma rnd_fixI: "x = of_int k * quantum x \<Longrightarrow> rnd x = x"
proof -
  assume a: "x = of_int k * quantum x"
  have "x / quantum x = (of_int k * quantum x) / quantum x"
    using a by (rule arg_cong [where f = "\<lambda>t. t / quantum x"])
  then have "x / quantum x = of_int k" by simp
  then have "rnd x = of_int k * quantum x" by (simp add: rnd_def rhe_of_int)
  with a show ?thesis by simp
qed

lemma abs_less_quantum:
  assumes "x \<noteq> 0"
  shows "\<bar>x\<bar> < 2 ^ 53 * quantum x"
proof -
  define E where "E = max (ilog2 \<bar>x\<bar>) (- 1022)"
  have x: "0 < \<bar>x\<bar>" using assms by simp
  have "\<bar>x\<bar> < 2 powi (ilog2 \<bar>x\<bar> + 1)" by (rule ilog2_bounds(2) [OF x])
  also have "\<dots> \<le> 2 powi (E + 1)" by (rule powi_mono) (simp add: E_def)
  also have "\<dots> = 2 powi (E + 1 - (E - 52)) * 2 powi (E - 52)" by (rule powi_split)
  also have "\<dots> = 2 ^ 53 * quantum x" by (simp add: quantum_def E_def)
  finally show ?thesis .
qed

lemma rhe_quantum_le: "\<bar>round_half_even (x / quantum x)\<bar> \<le> 2 ^ 53"
proof (cases "x = 0")
  case True
  then show ?thesis by (simp add: rhe_of_int [of 0, simplified])
next
  case False
  from abs_less_quantum [OF this] have "\<bar>x / quantum x\<bar> \<le> of_int (2 ^ 53)"
    by (simp add: pos_divide_le_eq)
  then show ?thesis by (rule rhe_abs_le)
qed

text \<open>A double rounds to itself.\<close>

lemma rnd_idem: "rnd (rnd x) = rnd x"
proof (cases "rnd x = 0")
  case True
  then show ?thesis by simp
next
  case nz: False
  define E where "E = max (ilog2 \<bar>x\<bar>) (- 1022)"
  define n where "n = round_half_even (x / quantum x)"
  define m where "m = rnd x"
  define E2 where "E2 = max (ilog2 \<bar>m\<bar>) (- 1022)"
  have E: "- 1022 \<le> E" by (simp add: E_def)
  have q: "quantum x = 2 powi (E - 52)" by (simp add: quantum_def E_def)
  have q2: "quantum m = 2 powi (E2 - 52)" by (simp add: quantum_def E2_def)
  have m: "m = of_int n * 2 powi (E - 52)" by (simp add: m_def rnd_def n_def q)
  have am: "\<bar>m\<bar> = of_int \<bar>n\<bar> * 2 powi (E - 52)" by (simp add: m abs_mult)
  have m0: "0 < \<bar>m\<bar>" using nz by (simp add: m_def)
  have nb: "\<bar>n\<bar> \<le> 2 ^ 53" unfolding n_def by (rule rhe_quantum_le)
  have top: "(2::rat) powi (E + 1) = 2 ^ 53 * 2 powi (E - 52)"
    using powi_split [of "E + 1" "E - 52"] by simp
  have "\<exists>k. m = of_int k * quantum m"
  proof (cases "\<bar>n\<bar> = 2 ^ 53")
    case True
    then have "(of_int \<bar>n\<bar> :: rat) = of_int (2 ^ 53)" by (simp only:)
    then have eq: "\<bar>m\<bar> = 2 powi (E + 1)" by (simp add: am top)
    have "ilog2 \<bar>m\<bar> = E + 1"
    proof (rule ilog2_eqI)
      show "2 powi (E + 1) \<le> \<bar>m\<bar>" by (simp add: eq)
      show "\<bar>m\<bar> < 2 powi (E + 1 + 1)" unfolding eq by (rule powi_strict_mono) simp
    qed
    then have "E2 = E + 1" using E by (simp add: E2_def)
    then have "quantum m = 2 * 2 powi (E - 52)"
      using powi_Suc [of "E - 52"] by (simp add: q2 add.commute)
    moreover have "even n" using True by (cases "0 \<le> n") (simp_all add: abs_if, presburger+)
    then obtain h where "n = 2 * h" by (elim evenE)
    ultimately have "m = of_int h * quantum m" by (simp add: m)
    then show ?thesis ..
  next
    case False
    with nb have "\<bar>n\<bar> < 2 ^ 53" by simp
    then have "(of_int \<bar>n\<bar> :: rat) < of_int (2 ^ 53)" by (simp only: of_int_less_iff)
    then have "\<bar>m\<bar> < 2 powi (E + 1)" by (simp add: am top)
    moreover have "2 powi ilog2 \<bar>m\<bar> \<le> \<bar>m\<bar>" by (rule ilog2_bounds(1) [OF m0])
    ultimately have "(2::rat) powi ilog2 \<bar>m\<bar> < 2 powi (E + 1)" by linarith
    then have "ilog2 \<bar>m\<bar> < E + 1" by (rule powi_less_cancel)
    then have le: "E2 \<le> E" using E by (simp add: E2_def)
    have "(2::rat) powi (E - 52) = 2 powi (E - 52 - (E2 - 52)) * 2 powi (E2 - 52)"
      by (rule powi_split)
    also have "(2::rat) powi (E - 52 - (E2 - 52)) = of_int (2 ^ nat (E - E2))"
      using le by (simp add: powi_nonneg)
    finally have pe: "(2::rat) powi (E - 52) = of_int (2 ^ nat (E - E2)) * 2 powi (E2 - 52)" .
    have *: "m = of_int (n * 2 ^ nat (E - E2)) * 2 powi (E2 - 52)"
      by (simp add: m pe)
    have "m = of_int (n * 2 ^ nat (E - E2)) * quantum m"
      unfolding q2 by (rule *)
    then show ?thesis ..
  qed
  then obtain k where "m = of_int k * quantum m" ..
  then have "rnd m = m" by (rule rnd_fixI)
  then show ?thesis by (simp add: m_def)
qed

subsection \<open>The number returned\<close>

lemma fl_0 [simp]: "fl 0 = Num 0"
  by (simp add: fl_def)

lemma fl_not_NaN [simp]: "fl x \<noteq> NaN"
  by (simp add: fl_def signed_inf_def signed_zero_def)

lemma is_finite_fl: "is_finite (fl x) \<longleftrightarrow> \<bar>rnd x\<bar> < 2 ^ 1024"
  by (auto simp add: fl_def signed_inf_def signed_zero_def)

lemma val_fl: "is_finite (fl x) \<Longrightarrow> val (fl x) = rnd x"
  by (auto simp add: fl_def signed_inf_def signed_zero_def split: if_splits)

lemma fl_pow_bound:
  assumes "\<bar>x\<bar> \<le> 2 powi k" and "- 1022 \<le> k" and "k \<le> 1023"
  shows "is_finite (fl x)" and "\<bar>val (fl x)\<bar> \<le> 2 powi k"
proof -
  have r: "\<bar>rnd x\<bar> \<le> 2 powi k" using assms(1,2) by (rule rnd_le_pow)
  have "(2::rat) powi k \<le> 2 powi 1023" using assms(3) by (rule powi_mono)
  then have "\<bar>rnd x\<bar> < 2 ^ 1024" using r by simp
  then show f: "is_finite (fl x)" by (simp only: is_finite_fl)
  show "\<bar>val (fl x)\<bar> \<le> 2 powi k" using r by (simp only: val_fl [OF f])
qed

text \<open>From the middle between the greatest double and \<open>2^1024\<close> on, the number returned
  is Infinity.\<close>

lemma fl_overflow:
  assumes "2 ^ 1024 - 2 ^ 970 \<le> x"
  shows "fl x = PosInf"
proof -
  have x: "2 powi 1023 \<le> \<bar>x\<bar>" "0 < x" using assms by simp_all
  have "2 ^ 1024 \<le> \<bar>rnd x\<bar>"
  proof (cases "2 ^ 1024 \<le> x")
    case True
    then have "2 powi 1024 \<le> \<bar>x\<bar>" by simp
    then have "2 powi 1024 \<le> \<bar>rnd x\<bar>" by (rule rnd_ge_pow) simp
    then show ?thesis by simp
  next
    case False
    then have "\<bar>x\<bar> < 2 powi (1023 + 1)" using x(2) by simp
    with x(1) have "ilog2 \<bar>x\<bar> = 1023" by (rule ilog2_eqI)
    then have q: "quantum x = 2 ^ 971" by (simp add: quantum_def)
    have "of_int (2 ^ 53) - 1 / 2 \<le> x / quantum x"
      using assms by (simp add: q pos_le_divide_eq)
    then have "2 ^ 53 \<le> round_half_even (x / quantum x)"
      by (rule rhe_ge_even [rotated]) simp
    then have "(of_int (2 ^ 53) :: rat) \<le> of_int (round_half_even (x / quantum x))"
      by (simp only: of_int_le_iff)
    then have "2 ^ 1024 \<le> rnd x" by (simp add: rnd_def q)
    then show ?thesis by simp
  qed
  then show ?thesis using x(2) by (simp add: fl_def signed_inf_def)
qed

lemma fl_idem: "fl x = Num m \<Longrightarrow> fl m = Num m"
proof -
  assume a: "fl x = Num m"
  show ?thesis
  proof (cases "m = 0")
    case True
    then show ?thesis by simp
  next
    case False
    with a have "m = rnd x" and "\<bar>rnd x\<bar> < 2 ^ 1024"
      by (auto simp add: fl_def signed_inf_def signed_zero_def split: if_splits)
    then have "rnd m = m" and "\<bar>rnd m\<bar> < 2 ^ 1024" by (simp_all add: rnd_idem)
    then show ?thesis using False by (simp add: fl_def)
  qed
qed

lemma fl_nonneg: "0 \<le> x \<Longrightarrow> fl x = PosInf \<or> (\<exists>m\<ge>0. fl x = Num m)"
  using rnd_nonneg [of x] by (auto simp add: fl_def signed_inf_def signed_zero_def)

text \<open>For reading off the double nearest to a given rational.\<close>

lemma fl_eqI:
  assumes "2 powi e \<le> \<bar>x\<bar>" and "\<bar>x\<bar> < 2 powi (e + 1)" and "- 1022 \<le> e" and "e \<le> 1023"
    and "\<bar>x / 2 powi (e - 52) - of_int n\<bar> < 1 / 2"
    and "\<bar>n\<bar> < 2 ^ 53"
  shows "fl x = Num (of_int n * 2 powi (e - 52))"
proof -
  note r = rnd_eqI [OF assms(1,2,3,5)]
  have "0 < \<bar>x\<bar>" using assms(1) powi_pos [of e] by linarith
  then have x: "x \<noteq> 0" by auto
  have "2 powi e \<le> \<bar>rnd x\<bar>" using assms(1,3) by (rule rnd_ge_pow)
  then have "0 < \<bar>rnd x\<bar>" using powi_pos [of e] by linarith
  then have nz: "rnd x \<noteq> 0" by auto
  have "(of_int \<bar>n\<bar> :: rat) < of_int (2 ^ 53)" using assms(6) by (simp only: of_int_less_iff)
  then have "\<bar>rnd x\<bar> < 2 ^ 53 * 2 powi (e - 52)" by (simp add: r abs_mult)
  also have "\<dots> = 2 powi (e + 1)" using powi_split [of "e + 1" "e - 52"] by simp
  also have "\<dots> \<le> 2 powi 1024" by (rule powi_mono) (use assms(4) in simp)
  finally have "\<bar>rnd x\<bar> < 2 ^ 1024" by simp
  then show ?thesis using x nz by (simp add: fl_def r)
qed

section \<open>Facts about the operations\<close>

lemma js_or_Num: "js_or (Num q) (Num d) = (if q = 0 then Num d else Num q)"
  by (simp add: js_or_def truthy_def)

lemma js_or_default: "\<not> truthy x \<Longrightarrow> js_or x d = d"
  by (simp add: js_or_def)

lemma truthy_js_or: "truthy d \<Longrightarrow> truthy (js_or x d)"
  by (simp add: js_or_def)

lemma is_finite_js_or: "\<not> is_inf x \<Longrightarrow> is_finite d \<Longrightarrow> is_finite (js_or x d)"
  by (cases x) (simp_all add: js_or_def truthy_def)

lemma val_js_or_zero: "val (js_or x (Num 0)) = val x"
  by (cases x) (simp_all add: js_or_def truthy_def)

lemma js_add_Num: "js_add (Num a) (Num c) = fl (a + c)"
  by (simp add: js_add_def)

lemma js_mul_nonneg: "0 \<le> a \<Longrightarrow> 0 \<le> c \<Longrightarrow> js_mul (Num a) (Num c) = fl (a * c)"
  by (auto simp add: js_mul_def signed_zero_def)

lemma js_div_nonneg: "0 \<le> a \<Longrightarrow> 0 < c \<Longrightarrow> js_div (Num a) (Num c) = fl (a / c)"
  by (auto simp add: js_div_def signed_zero_def)

lemma is_finite_signed_zero [simp]: "is_finite (signed_zero s)"
  by (simp add: signed_zero_def)

lemma val_signed_zero [simp]: "val (signed_zero s) = 0"
  by (simp add: signed_zero_def)

text \<open>No operation on finite numbers returns NaN, but the division of a zero by a zero.\<close>

lemma js_mul_not_NaN: "is_finite x \<Longrightarrow> is_finite y \<Longrightarrow> js_mul x y \<noteq> NaN"
  by (cases x; cases y) (simp_all add: js_mul_def signed_zero_def)

lemma js_add_not_NaN: "is_finite x \<Longrightarrow> y \<noteq> NaN \<Longrightarrow> js_add x y \<noteq> NaN"
  by (cases x; cases y) (simp_all add: js_add_def)

lemma js_div_not_NaN: "x \<noteq> NaN \<Longrightarrow> is_finite y \<Longrightarrow> truthy y \<Longrightarrow> js_div x y \<noteq> NaN"
  by (cases x; cases y) (simp_all add: js_div_def truthy_def signed_zero_def signed_inf_def)

text \<open>Bounds by powers of two go through the operations.\<close>

lemma div_by_ge_one:
  assumes "0 \<le> a" and "1 \<le> c"
  shows "a / c \<le> (a::rat)"
proof -
  have "a * 1 \<le> a * c" using assms by (intro mult_left_mono) simp_all
  then show ?thesis using assms(2) by (simp add: pos_divide_le_eq)
qed

lemma js_div_bound:
  assumes "is_finite x" and "\<bar>val x\<bar> \<le> 2 powi k" and "is_finite y" and "1 \<le> \<bar>val y\<bar>"
    and "- 1022 \<le> k" and "k \<le> 1023"
  shows "is_finite (js_div x y) \<and> \<bar>val (js_div x y)\<bar> \<le> 2 powi k"
proof (cases "is_zero x")
  case True
  have y: "\<not> is_zero y" "y \<noteq> NaN" "\<not> is_inf y" using assms(3,4) by (cases y; simp)+
  have x: "x \<noteq> NaN" "\<not> is_inf x" using assms(1) by (cases x; simp)+
  have "js_div x y = signed_zero (sign_neg x \<noteq> sign_neg y)"
    using x y True by (simp add: js_div_def)
  then show ?thesis by simp
next
  case False
  have y: "\<not> is_zero y" "y \<noteq> NaN" "\<not> is_inf y" using assms(3,4) by (cases y; simp)+
  have x: "x \<noteq> NaN" "\<not> is_inf x" using assms(1) by (cases x; simp)+
  have d: "js_div x y = fl (val x / val y)"
    using False x y by (simp add: js_div_def)
  have "\<bar>val x / val y\<bar> \<le> \<bar>val x\<bar>"
    using div_by_ge_one [of "\<bar>val x\<bar>" "\<bar>val y\<bar>"] assms(4) by (simp add: abs_divide)
  then have "\<bar>val x / val y\<bar> \<le> 2 powi k" using assms(2) by linarith
  from fl_pow_bound [OF this assms(5,6)] show ?thesis by (simp add: d)
qed

lemma js_mul_bound:
  assumes "is_finite x" and "\<bar>val x\<bar> \<le> 2 powi j" and "is_finite y" and "\<bar>val y\<bar> \<le> 2 powi k"
    and "- 1022 \<le> j + k" and "j + k \<le> 1023"
  shows "is_finite (js_mul x y) \<and> \<bar>val (js_mul x y)\<bar> \<le> 2 powi (j + k)"
proof (cases "is_zero x \<or> is_zero y")
  case True
  then have "js_mul x y = signed_zero (sign_neg x \<noteq> sign_neg y)"
    using assms(1,3) by (cases x; cases y) (simp_all add: js_mul_def)
  then show ?thesis by simp
next
  case False
  have x: "x \<noteq> NaN" "\<not> is_inf x" using assms(1) by (cases x; simp)+
  have y: "y \<noteq> NaN" "\<not> is_inf y" using assms(3) by (cases y; simp)+
  have m: "js_mul x y = fl (val x * val y)"
    using False x y by (simp add: js_mul_def)
  have "\<bar>val x * val y\<bar> \<le> 2 powi j * 2 powi k"
    using assms(2,4) by (simp add: abs_mult mult_mono)
  then have "\<bar>val x * val y\<bar> \<le> 2 powi (j + k)" by (simp add: power_int_add)
  from fl_pow_bound [OF this assms(5,6)] show ?thesis by (simp add: m)
qed

lemma js_add_bound:
  assumes "is_finite x" and "\<bar>val x\<bar> \<le> 2 powi k" and "is_finite y" and "\<bar>val y\<bar> \<le> 2 powi k"
    and "- 1022 \<le> k + 1" and "k + 1 \<le> 1023"
  shows "is_finite (js_add x y) \<and> \<bar>val (js_add x y)\<bar> \<le> 2 powi (k + 1)"
proof (cases "x = NegZero \<and> y = NegZero")
  case True
  then show ?thesis by (simp add: js_add_def)
next
  case False
  have x: "x \<noteq> NaN" "\<not> is_inf x" using assms(1) by (cases x; simp)+
  have y: "y \<noteq> NaN" "\<not> is_inf y" using assms(3) by (cases y; simp)+
  have a: "js_add x y = fl (val x + val y)"
    using False x y by (cases x; cases y) (simp_all add: js_add_def)
  have "\<bar>val x + val y\<bar> \<le> 2 * 2 powi k" using assms(2,4) by linarith
  then have "\<bar>val x + val y\<bar> \<le> 2 powi (k + 1)" by (simp add: powi_Suc)
  from fl_pow_bound [OF this assms(5,6)] show ?thesis by (simp add: a)
qed

text \<open>A number that an addition returned is a double: dividing it by 1 changes nothing.\<close>

lemma js_div_one_fl: "js_div (fl z) (Num 1) = fl z"
proof (cases "fl z")
  case (Num m)
  show ?thesis
  proof (cases "m = 0")
    case True
    with Num show ?thesis by (simp add: js_div_def signed_zero_def)
  next
    case False
    with Num fl_idem [OF Num] show ?thesis by (simp add: js_div_def)
  qed
qed (simp_all add: js_div_def signed_zero_def signed_inf_def)

lemma js_div_one_add: "js_div (js_add x y) (Num 1) = js_add x y"
proof -
  have s: "js_div z (Num 1) = z" if "z = NaN \<or> is_inf z \<or> z = NegZero" for z
    using that by (cases z) (simp_all add: js_div_def signed_zero_def signed_inf_def)
  show ?thesis
    by (cases x; cases y) (simp_all add: js_add_def s js_div_one_fl)
qed

text \<open>Whole numbers below \<open>2^53\<close> in magnitude are doubles.\<close>

lemma rnd_int:
  assumes "\<bar>k\<bar> \<le> 2 ^ 53"
  shows "rnd (of_int k) = of_int k"
proof (cases "k = 0")
  case True
  then show ?thesis by simp
next
  case False
  define x :: rat where "x = of_int k"
  define e where "e = ilog2 \<bar>x\<bar>"
  have x1: "1 \<le> \<bar>x\<bar>" using False by (simp add: x_def flip: of_int_abs)
  have "2 powi 0 \<le> \<bar>x\<bar>" using x1 by simp
  then have e0: "0 \<le> e" unfolding e_def by (rule ilog2_ge)
  have "(of_int \<bar>k\<bar> :: rat) \<le> of_int (2 ^ 53)" using assms by (simp only: of_int_le_iff)
  then have xb: "\<bar>x\<bar> \<le> 2 powi 53" by (simp add: x_def)
  have x0: "x \<noteq> 0" using False by (simp add: x_def)
  have e53: "e \<le> 53" unfolding e_def using x0 xb by (rule ilog2_le)
  have q: "quantum x = 2 powi (e - 52)" using e0 by (simp add: quantum_def e_def max_def)
  have "\<exists>h. x = of_int h * quantum x"
  proof (cases "e = 53")
    case True
    have "2 powi 53 \<le> \<bar>x\<bar>"
      using ilog2_bounds(1) [of "\<bar>x\<bar>"] x0 True by (simp add: e_def)
    with xb have "\<bar>x\<bar> = 2 ^ 53" by simp
    then have "\<bar>k\<bar> = 2 ^ 53" by (simp add: x_def flip: of_int_abs)
    then have "even k" by (cases "0 \<le> k") (simp_all add: abs_if, presburger+)
    then obtain h where "k = 2 * h" by (elim evenE)
    then have *: "x = of_int h * 2" by (simp add: x_def)
    have q2: "quantum x = 2" by (simp add: q True)
    have "x = of_int h * quantum x" unfolding q2 by (rule *)
    then show ?thesis ..
  next
    case False
    with e53 have le: "e \<le> 52" by simp
    have "(1::rat) = 2 powi (0 - (e - 52)) * 2 powi (e - 52)"
      using powi_split [of 0 "e - 52"] by simp
    also have "(2::rat) powi (0 - (e - 52)) = of_int (2 ^ nat (52 - e))"
      using le by (simp add: powi_nonneg)
    finally have one: "(1::rat) = of_int (2 ^ nat (52 - e)) * quantum x" by (simp only: q)
    have "x = of_int k * 1" by (simp add: x_def)
    also have "\<dots> = of_int k * (of_int (2 ^ nat (52 - e)) * quantum x)"
      using one by simp
    finally have "x = of_int (k * 2 ^ nat (52 - e)) * quantum x" by simp
    then show ?thesis ..
  qed
  then obtain h where "x = of_int h * quantum x" ..
  then have "rnd x = x" by (rule rnd_fixI)
  then show ?thesis by (simp add: x_def)
qed

lemma fl_int:
  assumes "\<bar>k\<bar> < 2 ^ 53"
  shows "fl (of_int k) = Num (of_int k)"
proof -
  have r: "rnd (of_int k) = of_int k" using assms by (simp add: rnd_int)
  have "(of_int \<bar>k\<bar> :: rat) < of_int (2 ^ 53)" using assms by (simp only: of_int_less_iff)
  then have "\<bar>rat_of_int k\<bar> < 2 ^ 1024" by simp
  then show ?thesis by (simp add: fl_def r)
qed

section \<open>Facts about the two amortization computations\<close>

lemma preview_fields:
  "capitalN (calculationPreview b f) = js_or (parseFloat b (capital f)) (Num 0)"
  "rateN (calculationPreview b f) = js_or (parseFloat b (interest_rate f)) (Num 0)"
  "countN (calculationPreview b f) = js_or (parseInt b (installments_count f)) (Num 1)"
  "totalInterest (calculationPreview b f) =
     js_mul (capitalN (calculationPreview b f)) (js_div (rateN (calculationPreview b f)) (Num 100))"
  "totalAmount (calculationPreview b f) =
     js_add (capitalN (calculationPreview b f)) (totalInterest (calculationPreview b f))"
  "installmentValue (calculationPreview b f) =
     js_div (totalAmount (calculationPreview b f)) (countN (calculationPreview b f))"
  by (simp_all add: calculationPreview_def Let_def)

lemma locals_fields:
  "capitalN (handleCreateLoan_locals b f) = parseFloat b (capital f)"
  "rateN (handleCreateLoan_locals b f) = parseFloat b (interest_rate f)"
  "countN (handleCreateLoan_locals b f) = parseInt b (installments_count f)"
  "totalInterest (handleCreateLoan_locals b f) =
     js_mul (parseFloat b (capital f)) (js_div (parseFloat b (interest_rate f)) (Num 100))"
  "totalAmount (handleCreateLoan_locals b f) =
     js_add (parseFloat b (capital f)) (totalInterest (handleCreateLoan_locals b f))"
  "installmentValue (handleCreateLoan_locals b f) =
     js_div (totalAmount (handleCreateLoan_locals b f)) (parseInt b (installments_count f))"
  by (simp_all add: handleCreateLoan_locals_def Let_def)

lemma preview_count_truthy: "truthy (countN (calculationPreview b f))"
proof -
  have "truthy (Num 1)" by (simp add: truthy_def)
  then show ?thesis by (simp add: preview_fields(3) truthy_js_or)
qed

text \<open>A double is below \<open>2^1024\<close>.\<close>

lemma double_less: "fl R = Num R \<Longrightarrow> \<bar>R\<bar> < 2 ^ 1024"
proof (cases "R = 0")
  case True
  then show ?thesis by simp
next
  case False
  assume "fl R = Num R"
  with False have "R = rnd R" and "\<bar>rnd R\<bar> < 2 ^ 1024"
    by (auto simp add: fl_def signed_inf_def signed_zero_def split: if_splits)
  then show ?thesis by simp
qed

text \<open>The three operations on a principal, a rate and a count that are not negative:
  each result is the rounded exact result, or Infinity once an earlier result is.\<close>

lemma amortization_chain:
  assumes "0 \<le> P" and "0 \<le> R" and "1 \<le> N" and "fl R = Num R"
  defines "ti \<equiv> js_mul (Num P) (js_div (Num R) (Num 100))"
  defines "ta \<equiv> js_add (Num P) ti"
  defines "iv \<equiv> js_div ta (Num N)"
  shows "ti = fl (P * val (fl (R / 100)))"
    and "ta = (if ti = PosInf then PosInf else fl (P + val ti))"
    and "iv = (if ta = PosInf then PosInf else fl (val ta / N))"
proof -
  have d: "js_div (Num R) (Num 100) = fl (R / 100)"
    using assms(2) by (simp add: js_div_nonneg)
  have "\<bar>R / 100\<bar> \<le> 2 powi 1023"
    using double_less [OF assms(4)] assms(2) by simp
  then have "is_finite (fl (R / 100))" by (rule fl_pow_bound) simp_all
  moreover have "fl (R / 100) = PosInf \<or> (\<exists>m\<ge>0. fl (R / 100) = Num m)"
    using assms(2) by (intro fl_nonneg) simp
  ultimately obtain r where r: "fl (R / 100) = Num r" "0 \<le> r" by auto
  show ti: "ti = fl (P * val (fl (R / 100)))"
    using assms(1) r by (simp add: ti_def d js_mul_nonneg)
  have "fl (P * r) = PosInf \<or> (\<exists>m\<ge>0. fl (P * r) = Num m)"
    using assms(1) r(2) by (intro fl_nonneg) simp
  then have tic: "ti = PosInf \<or> (\<exists>t\<ge>0. ti = Num t)"
    using ti r by simp
  show ta: "ta = (if ti = PosInf then PosInf else fl (P + val ti))"
    using tic by (auto simp add: ta_def js_add_def)
  have "ta = PosInf \<or> (\<exists>T\<ge>0. ta = Num T)"
  proof (cases "ti = PosInf")
    case True
    then show ?thesis using ta by simp
  next
    case False
    with tic obtain t where "ti = Num t" "0 \<le> t" by auto
    then have "ta = fl (P + t)" using ta by simp
    moreover have "fl (P + t) = PosInf \<or> (\<exists>m\<ge>0. fl (P + t) = Num m)"
      using assms(1) \<open>0 \<le> t\<close> by (intro fl_nonneg) simp
    ultimately show ?thesis by simp
  qed
  then show "iv = (if ta = PosInf then PosInf else fl (val ta / N))"
    using assms(3) by (auto simp add: iv_def js_div_nonneg) (simp add: js_div_def signed_inf_def)
qed

text \<open>Dividing a total by a count and multiplying the quotient by the count again: two
  roundings, each of a relative error of \<open>2^(-53)\<close> at most.\<close>

lemma fl_normal:
  assumes "2 powi (- 1022) \<le> \<bar>x\<bar>" and "\<bar>x\<bar> \<le> 2 powi 1023"
  shows "fl x = Num (rnd x)" and "\<bar>rnd x - x\<bar> \<le> \<bar>x\<bar> / 2 ^ 53" and "2 powi (- 1022) \<le> \<bar>rnd x\<bar>"
proof -
  show g: "2 powi (- 1022) \<le> \<bar>rnd x\<bar>" using assms(1) by (rule rnd_ge_pow) simp
  have "0 < \<bar>x\<bar>" using assms(1) powi_pos [of "- 1022"] by linarith
  then have x: "x \<noteq> 0" by auto
  have "0 < \<bar>rnd x\<bar>" using g powi_pos [of "- 1022"] by linarith
  then have nz: "rnd x \<noteq> 0" by auto
  have "\<bar>rnd x\<bar> \<le> 2 powi 1023" using assms(2) by (rule rnd_le_pow) simp
  then have "\<bar>rnd x\<bar> < 2 ^ 1024" by simp
  then show "fl x = Num (rnd x)" using x nz by (simp add: fl_def)
  show "\<bar>rnd x - x\<bar> \<le> \<bar>x\<bar> / 2 ^ 53" using assms(1) by (rule rnd_err)
qed


text \<open>With a capital and a rate of at most \<open>2^500\<close> in magnitude nothing overflows.\<close>

lemma amortization_finite:
  assumes "is_finite c" and "\<bar>val c\<bar> \<le> 2 ^ 500"
    and "is_finite r" and "\<bar>val r\<bar> \<le> 2 ^ 500"
    and "is_finite n" and "1 \<le> \<bar>val n\<bar>"
  shows "is_finite (js_mul c (js_div r (Num 100)))"
    and "is_finite (js_add c (js_mul c (js_div r (Num 100))))"
    and "is_finite (js_div (js_add c (js_mul c (js_div r (Num 100)))) n)"
proof -
  have c: "\<bar>val c\<bar> \<le> 2 powi 500" and r: "\<bar>val r\<bar> \<le> 2 powi 500"
    using assms(2,4) by simp_all
  have d: "is_finite (js_div r (Num 100)) \<and> \<bar>val (js_div r (Num 100))\<bar> \<le> 2 powi 500"
    using assms(3) r by (rule js_div_bound) simp_all
  have m: "is_finite (js_mul c (js_div r (Num 100)))
      \<and> \<bar>val (js_mul c (js_div r (Num 100)))\<bar> \<le> 2 powi (500 + 500)"
    using assms(1) c d by (intro js_mul_bound) simp_all
  then show "is_finite (js_mul c (js_div r (Num 100)))" by simp
  have "(2::rat) powi 500 \<le> 2 powi 1000" by (rule powi_mono) simp
  then have c': "\<bar>val c\<bar> \<le> 2 powi 1000" using c by linarith
  have a: "is_finite (js_add c (js_mul c (js_div r (Num 100))))
      \<and> \<bar>val (js_add c (js_mul c (js_div r (Num 100))))\<bar> \<le> 2 powi (1000 + 1)"
    using assms(1) c' m by (intro js_add_bound) simp_all
  then show "is_finite (js_add c (js_mul c (js_div r (Num 100))))" by simp
  have "is_finite (js_div (js_add c (js_mul c (js_div r (Num 100)))) n)
      \<and> \<bar>val (js_div (js_add c (js_mul c (js_div r (Num 100)))) n)\<bar> \<le> 2 powi 1001"
    using a assms(5,6) by (intro js_div_bound) simp_all
  then show "is_finite (js_div (js_add c (js_mul c (js_div r (Num 100)))) n)" by simp
qed

section \<open>Facts about the days late\<close>

lemma exact_sub_Num: "exact_sub (Num a) (Num c) = Num (a - c)"
  by (simp add: exact_sub_def)

lemma exact_div_day: "exact_div (Num k) (Num (1000 * 60 * 60 * 24)) = Num (k / 86400000)"
  by (simp add: exact_div_def signed_zero_def)

lemma floor_days: "\<lfloor>(rat_of_int now - rat_of_int D) / 86400000\<rfloor> = (now - D) div 86400000"
  using floor_divide_of_int_eq [of "now - D" 86400000, where ?'a = rat] by simp

lemma getDaysLate_Num:
  assumes "dateTime b date = Num (of_int D)"
  shows "getDaysLate b now date = Num (of_int ((now - D) div 86400000))"
  unfolding getDaysLate_def Let_def assms exact_sub_Num exact_div_day Math_floor.simps floor_days ..

lemma js_ge_int: "js_ge (Num (of_int d)) (Num (of_int t)) \<longleftrightarrow> t \<le> d"
  by (simp add: js_ge_def)

lemma js_strict_eq_int: "js_strict_eq (Num (of_int t)) (Num (of_int k)) \<longleftrightarrow> t = k"
  by (auto simp add: js_strict_eq_def)

text \<open>
  The same number of days comes out of the operations on doubles, \<^verbatim>\<open>-\<close> and \<^verbatim>\<open>/\<close>
  with their roundings, when the clock, the due date and their difference are below
  \<open>2^53\<close> milliseconds in magnitude. The difference is then a whole number that is a
  double, and the rounding of the quotient moves it by less than one part in
  \<open>86400000\<close>, never across a whole number.
\<close>

lemma floor_of_rounded_days:
  assumes "k \<noteq> 0" and "\<bar>k\<bar> < 2 ^ 53"
  shows "fl (of_int k / 86400000) = Num (rnd (of_int k / 86400000))"
    and "\<lfloor>rnd (of_int k / 86400000)\<rfloor> = k div 86400000"
proof -
  define x :: rat where "x = of_int k / 86400000"
  define n where "n = k div 86400000"
  define r where "r = k mod 86400000"
  have k: "k = n * 86400000 + r" and r: "0 \<le> r" "r < 86400000"
    by (simp_all add: n_def r_def)
  have xr: "x = of_int n + of_int r / 86400000"
    by (simp add: x_def k add_divide_distrib)
  have k1: "1 \<le> \<bar>rat_of_int k\<bar>" using assms(1) by (simp flip: of_int_abs)
  have "(of_int \<bar>k\<bar> :: rat) < of_int (2 ^ 53)" using assms(2) by (simp only: of_int_less_iff)
  then have k53: "\<bar>rat_of_int k\<bar> < 2 ^ 53" by simp
  have ax: "\<bar>x\<bar> = \<bar>rat_of_int k\<bar> / 86400000" by (simp add: x_def)
  have "(2::rat) powi (- 1022) \<le> 2 powi (- 27)" by (rule powi_mono) simp
  also have "\<dots> \<le> 1 / 86400000" by (simp add: power_int_minus_divide)
  also have "\<dots> \<le> \<bar>x\<bar>" using k1 by (simp add: ax divide_right_mono)
  finally have lo: "2 powi (- 1022) \<le> \<bar>x\<bar>" .
  have "\<bar>x\<bar> \<le> 2 ^ 53" using k53 by (simp add: ax)
  also have "\<dots> \<le> (2::rat) powi 1023" using powi_mono [of 53 1023] by simp
  finally have hi: "\<bar>x\<bar> \<le> 2 powi 1023" .
  note f = fl_normal [OF lo hi]
  show "fl (of_int k / 86400000) = Num (rnd (of_int k / 86400000))"
    using f(1) by (simp add: x_def)
  have "\<bar>x\<bar> / 2 ^ 53 < 1 / 86400000" using k53 by (simp add: ax)
  with f(2) have e: "\<bar>rnd x - x\<bar> < 1 / 86400000" by linarith
  have "\<lfloor>rnd x\<rfloor> = n"
  proof (cases "r = 0")
    case True
    then have xn: "x = of_int n" by (simp add: xr)
    have "\<bar>n\<bar> \<le> \<bar>k\<bar>" using True k by (simp add: abs_mult)
    then have "\<bar>n\<bar> \<le> 2 ^ 53" using assms(2) by simp
    then have "rnd (of_int n) = of_int n" by (rule rnd_int)
    then show ?thesis by (simp add: xn)
  next
    case False
    with r have "1 \<le> r" "r \<le> 86400000 - 1" by simp_all
    then have "(of_int 1 :: rat) \<le> of_int r" "(of_int r :: rat) \<le> of_int (86400000 - 1)"
      by (simp_all only: of_int_le_iff)
    then have "1 / 86400000 \<le> rat_of_int r / 86400000"
      and "rat_of_int r / 86400000 \<le> 1 - 1 / 86400000"
      by simp_all
    then have "of_int n \<le> rnd x" and "rnd x < of_int n + 1"
      using e unfolding xr by linarith+
    then show ?thesis by (simp add: floor_unique)
  qed
  then show "\<lfloor>rnd (of_int k / 86400000)\<rfloor> = k div 86400000"
    by (simp add: x_def n_def)
qed

lemma getDaysLate_doubles:
  assumes "dateTime b date = Num (of_int D)"
    and "\<bar>now\<bar> < 2 ^ 53" and "\<bar>D\<bar> < 2 ^ 53" and "\<bar>now - D\<bar> < 2 ^ 53"
  shows "Math_floor (js_div (js_sub (Num (of_int now)) (dateTime b date)) (Num (1000 * 60 * 60 * 24)))
           = getDaysLate b now date"
proof -
  have s: "js_sub (Num (of_int now)) (Num (of_int D)) = fl (of_int (now - D))"
    by (simp add: js_sub_def js_add_def)
  have d: "fl (of_int (now - D)) = Num (of_int (now - D))"
    using assms(4) by (rule fl_int)
  have "Math_floor (js_div (Num (of_int (now - D))) (Num (1000 * 60 * 60 * 24)))
      = Num (of_int ((now - D) div 86400000))"
  proof (cases "now - D = 0")
    case True
    then show ?thesis by (simp add: js_div_def signed_zero_def)
  next
    case False
    then have "js_div (Num (of_int (now - D))) (Num (1000 * 60 * 60 * 24))
        = fl (of_int (now - D) / 86400000)"
      by (simp add: js_div_def)
    then show ?thesis
      using floor_of_rounded_days [OF False assms(4)] by simp
  qed
  then show ?thesis
    by (simp only: assms(1) s d getDaysLate_Num [OF assms(1)])
qed

lemma getDaysLate_doubles_clock:
  assumes "dateTime b date = Num (of_int D)"
    and "\<bar>D\<bar> \<le> 8640000000000000" and "\<bar>now\<bar> \<le> 360000000000000"
  shows "Math_floor (js_div (js_sub (Num (of_int now)) (dateTime b date)) (Num (1000 * 60 * 60 * 24)))
           = getDaysLate b now date"
proof -
  have "\<bar>now\<bar> < 2 ^ 53" "\<bar>D\<bar> < 2 ^ 53" "\<bar>now - D\<bar> < 2 ^ 53"
    using assms(2,3) by simp_all
  with assms(1) show ?thesis by (rule getDaysLate_doubles)
qed

section \<open>The examples, evaluated\<close>

lemma fl_valueI:
  assumes "2 powi e \<le> \<bar>x\<bar>" and "\<bar>x\<bar> < 2 powi (e + 1)" and "- 1022 \<le> e" and "e \<le> 1023"
    and "\<bar>x / 2 powi (e - 52) - of_int n\<bar> < 1 / 2"
    and "\<bar>n\<bar> < 2 ^ 53"
    and "m = of_int n * 2 powi (e - 52)"
  shows "fl x = Num m"
  using fl_eqI [OF assms(1-6)] assms(7) by simp

lemmas parser_defs = js_parseFloat_def js_parseInt_def stripSign_def isWhiteSpace_def
  isSign_def isDigit_def isRadixDigit_def digitsValue_def digitValue_def exponentPart_def
  scale10_def Let_def

lemma fl_small_ints:
  "fl 1 = Num 1" "fl 3 = Num 3" "fl 7 = Num 7" "fl 10 = Num 10" "fl 20 = Num 20"
  "fl 24 = Num 24" "fl 100 = Num 100" "fl 300 = Num 300" "fl 1000 = Num 1000"
  "fl 1100 = Num 1100" "fl 1500 = Num 1500" "fl 1800 = Num 1800"
  using fl_int [of 1] fl_int [of 3] fl_int [of 7] fl_int [of 10] fl_int [of 20] fl_int [of 24]
    fl_int [of 100] fl_int [of 300] fl_int [of 1000] fl_int [of 1100] fl_int [of 1500]
    fl_int [of 1800]
  by simp_all

text \<open>The doubles nearest to 0.1, 0.07 and 0.2, and the products and quotients of the
  examples.\<close>

lemma fl_tenth: "fl (10 / 100) = Num (3602879701896397 / 36028797018963968)"
  by (rule fl_valueI [where e = "- 4" and n = 7205759403792794]) simp_all

lemma fl_seven_hundredths: "fl (7 / 100) = Num (1261007895663739 / 18014398509481984)"
  by (rule fl_valueI [where e = "- 4" and n = 5044031582654956]) simp_all


lemma fl_thousand_tenths: "fl (1000 * (3602879701896397 / 36028797018963968)) = Num 100"
  by (rule fl_valueI [where e = 6 and n = 7036874417766400]) simp_all

lemma fl_hundred_seven_hundredths:
  "fl (100 * (1261007895663739 / 18014398509481984)) = Num (7881299347898369 / 1125899906842624)"
  by (rule fl_valueI [where e = 2 and n = 7881299347898369]) simp_all


lemma fl_installment_24: "fl (1100 / 24) = Num (6450468216285867 / 140737488355328)"
  by (rule fl_valueI [where e = 5 and n = 6450468216285867]) simp_all

lemma fl_installment_minus_3: "fl (- (1100 / 3)) = Num (- (6450468216285867 / 17592186044416))"
  by (rule fl_valueI [where e = 8 and n = "- 6450468216285867"]) simp_all



text \<open>The doubles at the end of the range.\<close>

lemma fl_1e308: "fl (10 ^ 308) = Num (5010420900022432 * 2 ^ 971)"
  by (rule fl_valueI [where e = 1023 and n = 5010420900022432]) simp_all


lemma fl_maxDouble: "fl (2 ^ 1024 - 2 ^ 971) = Num (2 ^ 1024 - 2 ^ 971)"
  by (rule fl_valueI [where e = 1023 and n = 9007199254740991]) simp_all



lemma fl_ten_1e308: "fl (5010420900022432 * 2 ^ 971 * 10) = PosInf"
  by (rule fl_overflow) simp

text \<open>The strings of the examples, parsed.\<close>

lemma parsed_1e308: "js_parseFloat ''1e308'' = Num (5010420900022432 * 2 ^ 971)"
proof -
  have "js_parseFloat ''1e308'' = fl (10 ^ 308)"
    by (simp add: parser_defs)
  then show ?thesis by (simp only: fl_1e308)
qed


lemma parsed_numbers:
  "js_parseFloat ''1000'' = Num 1000" "js_parseFloat ''10'' = Num 10"
  "js_parseFloat ''100'' = Num 100" "js_parseFloat ''7'' = Num 7"
  "js_parseFloat ''1500'' = Num 1500" "js_parseFloat ''20'' = Num 20"
  "js_parseFloat ''0'' = Num 0" "js_parseFloat [] = NaN" "js_parseFloat ''abc'' = NaN"
  "js_parseInt ''24'' = Num 24" "js_parseInt ''0'' = Num 0" "js_parseInt ''1'' = Num 1"
  "js_parseInt ''3'' = Num 3" "js_parseInt ''7'' = Num 7" "js_parseInt ''-3'' = Num (- 3)"
  "js_parseInt [] = NaN"
  by (simp_all add: parser_defs signed_zero_def fl_small_ints)

lemma exampleLoan_parsed:
  "parseFloat js (capital exampleLoan) = Num 1000"
  "parseFloat js (interest_rate exampleLoan) = Num 10"
  "parseInt js (installments_count exampleLoan) = Num 24"
  by (simp_all add: js_def exampleLoan_def parsed_numbers)

lemma zeroCountLoan_parsed:
  "parseFloat js (capital zeroCountLoan) = Num 1000"
  "parseFloat js (interest_rate zeroCountLoan) = Num 10"
  "parseInt js (installments_count zeroCountLoan) = Num 0"
  by (simp_all add: js_def zeroCountLoan_def exampleLoan_def parsed_numbers)

lemma negativeCountLoan_parsed:
  "parseFloat js (capital negativeCountLoan) = Num 1000"
  "parseFloat js (interest_rate negativeCountLoan) = Num 10"
  "parseInt js (installments_count negativeCountLoan) = Num (- 3)"
  by (simp_all add: js_def negativeCountLoan_def exampleLoan_def parsed_numbers)

lemma blankLoan_parsed:
  "parseFloat js (capital blankLoan) = NaN"
  "parseFloat js (interest_rate blankLoan) = NaN"
  "parseInt js (installments_count blankLoan) = NaN"
  by (simp_all add: js_def blankLoan_def exampleLoan_def parsed_numbers)

lemma sevenPercentLoan_parsed:
  "parseFloat js (capital sevenPercentLoan) = Num 100"
  "parseFloat js (interest_rate sevenPercentLoan) = Num 7"
  "parseInt js (installments_count sevenPercentLoan) = Num 1"
  by (simp_all add: js_def sevenPercentLoan_def exampleLoan_def parsed_numbers)


lemma hugeLoan_parsed:
  "parseFloat js (capital hugeLoan) = Num (5010420900022432 * 2 ^ 971)"
  "parseFloat js (interest_rate hugeLoan) = Num 1000"
  "parseInt js (installments_count hugeLoan) = Num 1"
  by (simp_all only: js_def hugeLoan_def exampleLoan_def parsed_numbers parsed_1e308
      builtins.simps newLoan.simps)


text \<open>The previews of the examples, one operation at a time.\<close>

lemma previewI:
  assumes "js_or (parseFloat b (capital f)) (Num 0) = c"
    and "js_or (parseFloat b (interest_rate f)) (Num 0) = r"
    and "js_or (parseInt b (installments_count f)) (Num 1) = n"
    and "js_div r (Num 100) = d"
    and "js_mul c d = ti"
    and "js_add c ti = ta"
    and "js_div ta n = iv"
  shows "calculationPreview b f =
     \<lparr>capitalN = c, rateN = r, countN = n, totalInterest = ti, totalAmount = ta,
      installmentValue = iv\<rparr>"
  unfolding calculationPreview_def Let_def assms ..

lemma localsI:
  assumes "parseFloat b (capital f) = c"
    and "parseFloat b (interest_rate f) = r"
    and "parseInt b (installments_count f) = n"
    and "js_div r (Num 100) = d"
    and "js_mul c d = ti"
    and "js_add c ti = ta"
    and "js_div ta n = iv"
  shows "handleCreateLoan_locals b f =
     \<lparr>capitalN = c, rateN = r, countN = n, totalInterest = ti, totalAmount = ta,
      installmentValue = iv\<rparr>"
  unfolding handleCreateLoan_locals_def Let_def assms ..

lemma ten_percent: "js_div (Num 10) (Num 100) = Num (3602879701896397 / 36028797018963968)"
  by (rule trans [OF js_div_nonneg fl_tenth]) simp_all

lemma ten_percent_of_1000:
  "js_mul (Num 1000) (Num (3602879701896397 / 36028797018963968)) = Num 100"
  by (rule trans [OF js_mul_nonneg fl_thousand_tenths]) simp_all

lemma sum_1100: "js_add (Num 1000) (Num 100) = Num 1100"
  by (simp add: js_add_Num fl_small_ints)

lemma exampleLoan_preview:
  "calculationPreview js exampleLoan =
     \<lparr>capitalN = Num 1000, rateN = Num 10, countN = Num 24, totalInterest = Num 100,
      totalAmount = Num 1100,
      installmentValue = Num (6450468216285867 / 140737488355328)\<rparr>"
proof (rule previewI [where d = "Num (3602879701896397 / 36028797018963968)"])
  show "js_div (Num 1100) (Num 24) = Num (6450468216285867 / 140737488355328)"
    by (rule trans [OF js_div_nonneg fl_installment_24]) simp_all
qed (simp_all add: exampleLoan_parsed js_or_Num ten_percent ten_percent_of_1000 sum_1100)

lemma exampleLoan_locals:
  "handleCreateLoan_locals js exampleLoan =
     \<lparr>capitalN = Num 1000, rateN = Num 10, countN = Num 24, totalInterest = Num 100,
      totalAmount = Num 1100,
      installmentValue = Num (6450468216285867 / 140737488355328)\<rparr>"
proof (rule localsI [where d = "Num (3602879701896397 / 36028797018963968)"])
  show "js_div (Num 1100) (Num 24) = Num (6450468216285867 / 140737488355328)"
    by (rule trans [OF js_div_nonneg fl_installment_24]) simp_all
qed (simp_all add: exampleLoan_parsed ten_percent ten_percent_of_1000 sum_1100)

lemma zeroCountLoan_preview:
  "calculationPreview js zeroCountLoan =
     \<lparr>capitalN = Num 1000, rateN = Num 10, countN = Num 1, totalInterest = Num 100,
      totalAmount = Num 1100, installmentValue = Num 1100\<rparr>"
proof (rule previewI [where d = "Num (3602879701896397 / 36028797018963968)"])
  show "js_div (Num 1100) (Num 1) = Num 1100"
    by (simp add: js_div_nonneg fl_small_ints)
qed (simp_all add: zeroCountLoan_parsed js_or_Num ten_percent ten_percent_of_1000 sum_1100)

lemma zeroCountLoan_locals:
  "handleCreateLoan_locals js zeroCountLoan =
     \<lparr>capitalN = Num 1000, rateN = Num 10, countN = Num 0, totalInterest = Num 100,
      totalAmount = Num 1100, installmentValue = PosInf\<rparr>"
proof (rule localsI [where d = "Num (3602879701896397 / 36028797018963968)"])
  show "js_div (Num 1100) (Num 0) = PosInf"
    by (simp add: js_div_def signed_inf_def)
qed (simp_all add: zeroCountLoan_parsed ten_percent ten_percent_of_1000 sum_1100)

lemma negativeCountLoan_preview:
  "calculationPreview js negativeCountLoan =
     \<lparr>capitalN = Num 1000, rateN = Num 10, countN = Num (- 3), totalInterest = Num 100,
      totalAmount = Num 1100,
      installmentValue = Num (- (6450468216285867 / 17592186044416))\<rparr>"
proof (rule previewI [where d = "Num (3602879701896397 / 36028797018963968)"])
  have "js_div (Num 1100) (Num (- 3)) = fl (- (1100 / 3))"
    by (simp add: js_div_def)
  then show "js_div (Num 1100) (Num (- 3)) = Num (- (6450468216285867 / 17592186044416))"
    by (simp only: fl_installment_minus_3)
qed (simp_all add: negativeCountLoan_parsed js_or_Num ten_percent ten_percent_of_1000 sum_1100)

lemma sevenPercentLoan_preview:
  "calculationPreview js sevenPercentLoan =
     \<lparr>capitalN = Num 100, rateN = Num 7, countN = Num 1,
      totalInterest = Num (7881299347898369 / 1125899906842624),
      totalAmount = Num 107, installmentValue = Num 107\<rparr>"
proof (rule previewI [where d = "Num (1261007895663739 / 18014398509481984)"])
  show "js_div (Num 7) (Num 100) = Num (1261007895663739 / 18014398509481984)"
    by (rule trans [OF js_div_nonneg fl_seven_hundredths]) simp_all
  show "js_mul (Num 100) (Num (1261007895663739 / 18014398509481984)) =
      Num (7881299347898369 / 1125899906842624)"
    by (rule trans [OF js_mul_nonneg fl_hundred_seven_hundredths]) simp_all
  have "fl (100 + 7881299347898369 / 1125899906842624) = Num 107"
    by (rule fl_valueI [where e = 6 and n = 7529455627010048]) simp_all
  then show "js_add (Num 100) (Num (7881299347898369 / 1125899906842624)) = Num 107"
    by (simp only: js_add_Num)
  have "fl 107 = Num 107" using fl_int [of 107] by simp
  then show "js_div (Num 107) (Num 1) = Num 107"
    by (simp add: js_div_nonneg)
qed (simp_all add: sevenPercentLoan_parsed js_or_Num)



lemma hugeLoan_preview:
  "calculationPreview js hugeLoan =
     \<lparr>capitalN = Num (5010420900022432 * 2 ^ 971), rateN = Num 1000, countN = Num 1,
      totalInterest = PosInf, totalAmount = PosInf, installmentValue = PosInf\<rparr>"
proof (rule previewI [where d = "Num 10"])
  show "js_or (parseFloat js (capital hugeLoan)) (Num 0) = Num (5010420900022432 * 2 ^ 971)"
    unfolding hugeLoan_parsed js_or_Num by simp
  show "js_div (Num 1000) (Num 100) = Num 10"
    by (simp add: js_div_nonneg fl_small_ints)
  show "js_mul (Num (5010420900022432 * 2 ^ 971)) (Num 10) = PosInf"
    by (rule trans [OF js_mul_nonneg fl_ten_1e308]) simp_all
  show "js_add (Num (5010420900022432 * 2 ^ 971)) PosInf = PosInf"
    by (simp add: js_add_def)
  show "js_div PosInf (Num 1) = PosInf"
    by (simp add: js_div_def signed_inf_def)
qed (simp_all add: hugeLoan_parsed js_or_Num)



lemma due_parsed: "dateTime js ''2024-03-01'' = Num (of_int 1709251200000)"
  by code_simp

lemma exampleLoan_row:
  "handleCreateLoan js acceptLoan (Some ''u-1'') exampleLoan =
     Inr \<lparr>row_client_id = ''7'', row_capital = Num 1000, row_interest_rate = Num 10,
          row_payment_type = DAILY, row_installments_count = Num 24,
          row_start_date = ''2024-03-01'', row_late_fee_enabled = True,
          row_status = ''ACTIVE'', row_created_by = ''u-1''\<rparr>"
proof -
  have "loan_row_of js exampleLoan ''u-1'' =
      \<lparr>row_client_id = ''7'', row_capital = Num 1000, row_interest_rate = Num 10,
       row_payment_type = DAILY, row_installments_count = Num 24,
       row_start_date = ''2024-03-01'', row_late_fee_enabled = True,
       row_status = ''ACTIVE'', row_created_by = ''u-1''\<rparr>"
    by (simp add: loan_row_of_def Let_def exampleLoan_locals) (simp add: exampleLoan_def)
  moreover have "client_id exampleLoan \<noteq> []"
    by (simp add: exampleLoan_def)
  ultimately show ?thesis
    by (simp add: handleCreateLoan_def acceptLoan_def)
qed


section \<open>The amortization computation\<close>

text \<open>
  C1, as the claim states it, fails on two counts. The results are doubles, and not
  always the values of the three formulas: for a capital of 100 at 7 percent the total
  interest is 7.000000000000001, the double next above 7, since 0.07 is no double. And
  none of the three results is inserted at the creation of a loan: the row inserted
  for the example form carries the capital, the rate and the count, and nothing
  computed from them.
\<close>

theorem amortization_exact_counterexample:
  "parseFloat js (capital sevenPercentLoan) = Num 100
   \<and> parseFloat js (interest_rate sevenPercentLoan) = Num 7
   \<and> parseInt js (installments_count sevenPercentLoan) = Num 1
   \<and> totalInterest (calculationPreview js sevenPercentLoan)
        = Num (7881299347898369 / 1125899906842624)
   \<and> totalInterest (calculationPreview js sevenPercentLoan) \<noteq> Num (100 * (7 / 100))
   \<and> handleCreateLoan js acceptLoan (Some ''u-1'') exampleLoan =
        Inr \<lparr>row_client_id = ''7'', row_capital = Num 1000, row_interest_rate = Num 10,
             row_payment_type = DAILY, row_installments_count = Num 24,
             row_start_date = ''2024-03-01'', row_late_fee_enabled = True,
             row_status = ''ACTIVE'', row_created_by = ''u-1''\<rparr>"
proof -
  have "totalInterest (calculationPreview js sevenPercentLoan)
      = Num (7881299347898369 / 1125899906842624)"
    by (simp add: sevenPercentLoan_preview)
  moreover have "Num (7881299347898369 / 1125899906842624) \<noteq> Num (100 * (7 / 100))"
    by simp
  ultimately show ?thesis
    using sevenPercentLoan_parsed exampleLoan_row by simp
qed

text \<open>
  C1, amended. For a principal \<open>P \<ge> 0\<close>, a rate \<open>R \<ge> 0\<close> and a count \<open>N \<ge> 1\<close>, as the
  parsers return them from the form, \<open>R\<close> a double, each of the three results is the
  formula's in the arithmetic of the doubles: the total interest is the double nearest
  to \<open>P\<close> times the double nearest to \<open>R / 100\<close>, the total amount the double nearest
  to \<open>P\<close> plus the total interest, and the installment the double nearest to the total
  amount divided by \<open>N\<close>; a result whose nearest double is out of range is Infinity,
  and so are the results after it. The values computed at the head of
  \<^verbatim>\<open>handleCreateLoan\<close> are those of the live preview. Of them the capital, the rate
  and the count are inserted, and none of the three results: with a selected client,
  a signed-in user and an insert that succeeds, the row is the one below.
\<close>

theorem amortization_in_doubles:
  assumes "parseFloat b (capital f) = Num P"
    and "parseFloat b (interest_rate f) = Num R"
    and "parseInt b (installments_count f) = Num N"
    and "0 \<le> P" and "0 \<le> R" and "1 \<le> N" and "fl R = Num R"
  shows "totalInterest (calculationPreview b f) = fl (P * val (fl (R / 100)))
       \<and> totalAmount (calculationPreview b f)
           = (if totalInterest (calculationPreview b f) = PosInf then PosInf
              else fl (P + val (totalInterest (calculationPreview b f))))
       \<and> installmentValue (calculationPreview b f)
           = (if totalAmount (calculationPreview b f) = PosInf then PosInf
              else fl (val (totalAmount (calculationPreview b f)) / N))
       \<and> handleCreateLoan_locals b f = calculationPreview b f
       \<and> (client_id f \<noteq> [] \<and> uid \<noteq> [] \<and> insertLoan (loan_row_of b f uid) = None \<longrightarrow>
            handleCreateLoan b insertLoan (Some uid) f =
              Inr \<lparr>row_client_id = client_id f, row_capital = Num P, row_interest_rate = Num R,
                   row_payment_type = payment_type f, row_installments_count = Num N,
                   row_start_date = start_date f, row_late_fee_enabled = late_fee_enabled f,
                   row_status = ''ACTIVE'', row_created_by = uid\<rparr>)"
proof -
  let ?p = "calculationPreview b f"
  have n0: "N \<noteq> 0" using assms(6) by simp
  have c: "capitalN ?p = Num P" "rateN ?p = Num R" "countN ?p = Num N"
    using n0 by (simp_all add: preview_fields(1-3) assms(1-3) js_or_Num)
  note ch = amortization_chain [OF assms(4-7)]
  have ti: "totalInterest ?p = js_mul (Num P) (js_div (Num R) (Num 100))"
    by (simp add: preview_fields(4) c)
  have ta: "totalAmount ?p = js_add (Num P) (totalInterest ?p)"
    by (simp add: preview_fields(5) c)
  have iv: "installmentValue ?p = js_div (totalAmount ?p) (Num N)"
    by (simp add: preview_fields(6) c)
  have 1: "totalInterest ?p = fl (P * val (fl (R / 100)))"
    unfolding ti by (rule ch(1))
  have 2: "totalAmount ?p
      = (if totalInterest ?p = PosInf then PosInf else fl (P + val (totalInterest ?p)))"
    unfolding ta ti by (rule ch(2))
  have 3: "installmentValue ?p
      = (if totalAmount ?p = PosInf then PosInf else fl (val (totalAmount ?p) / N))"
    unfolding iv ta ti by (rule ch(3))
  have 4: "handleCreateLoan_locals b f = ?p"
    using n0 by (simp add: calculationPreview_def handleCreateLoan_locals_def Let_def
        assms(1-3) js_or_Num)
  have row: "loan_row_of b f uid =
      \<lparr>row_client_id = client_id f, row_capital = Num P, row_interest_rate = Num R,
       row_payment_type = payment_type f, row_installments_count = Num N,
       row_start_date = start_date f, row_late_fee_enabled = late_fee_enabled f,
       row_status = ''ACTIVE'', row_created_by = uid\<rparr>"
    by (simp add: loan_row_of_def Let_def locals_fields assms(1-3))
  have 5: "handleCreateLoan b insertLoan (Some uid) f = Inr (loan_row_of b f uid)"
    if "client_id f \<noteq> []" "uid \<noteq> []" "insertLoan (loan_row_of b f uid) = None"
    using that by (simp add: handleCreateLoan_def)
  show ?thesis
  proof (intro conjI impI)
    assume "client_id f \<noteq> [] \<and> uid \<noteq> [] \<and> insertLoan (loan_row_of b f uid) = None"
    then have "handleCreateLoan b insertLoan (Some uid) f = Inr (loan_row_of b f uid)"
      using 5 by blast
    then show "handleCreateLoan b insertLoan (Some uid) f =
        Inr \<lparr>row_client_id = client_id f, row_capital = Num P, row_interest_rate = Num R,
             row_payment_type = payment_type f, row_installments_count = Num N,
             row_start_date = start_date f, row_late_fee_enabled = late_fee_enabled f,
             row_status = ''ACTIVE'', row_created_by = uid\<rparr>"
      by (simp only: row)
  qed (rule 1 2 3 4)+
qed

theorem amortization_in_doubles_witness:
  "parseFloat js (capital exampleLoan) = Num 1000
   \<and> parseFloat js (interest_rate exampleLoan) = Num 10
   \<and> parseInt js (installments_count exampleLoan) = Num 24
   \<and> fl 10 = Num 10
   \<and> totalInterest (calculationPreview js exampleLoan) = Num 100
   \<and> totalAmount (calculationPreview js exampleLoan) = Num 1100
   \<and> installmentValue (calculationPreview js exampleLoan)
        = Num (6450468216285867 / 140737488355328)
   \<and> handleCreateLoan_locals js exampleLoan = calculationPreview js exampleLoan
   \<and> client_id exampleLoan \<noteq> []
   \<and> acceptLoan (loan_row_of js exampleLoan ''u-1'') = None
   \<and> handleCreateLoan js acceptLoan (Some ''u-1'') exampleLoan =
        Inr \<lparr>row_client_id = ''7'', row_capital = Num 1000, row_interest_rate = Num 10,
             row_payment_type = DAILY, row_installments_count = Num 24,
             row_start_date = ''2024-03-01'', row_late_fee_enabled = True,
             row_status = ''ACTIVE'', row_created_by = ''u-1''\<rparr>"
proof -
  let ?p = "calculationPreview js exampleLoan"
  have h: "(0::rat) \<le> 1000" "(0::rat) \<le> 10" "(1::rat) \<le> 24" "fl 10 = Num 10"
    by (simp_all add: fl_small_ints)
  note t = amortization_in_doubles [OF exampleLoan_parsed h, of "''u-1''" acceptLoan]
  have "totalInterest ?p = fl (1000 * val (fl (10 / 100)))"
    using t by (rule conjunct1)
  then have ti: "totalInterest ?p = Num 100"
    by (simp only: fl_tenth val.simps fl_thousand_tenths)
  have "totalAmount ?p
      = (if totalInterest ?p = PosInf then PosInf else fl (1000 + val (totalInterest ?p)))"
    using t by (rule conjunct1 [OF conjunct2])
  then have ta: "totalAmount ?p = Num 1100"
    by (simp add: ti fl_small_ints)
  have "installmentValue ?p
      = (if totalAmount ?p = PosInf then PosInf else fl (val (totalAmount ?p) / 24))"
    using t by (rule conjunct1 [OF conjunct2 [OF conjunct2]])
  then have iv: "installmentValue ?p = Num (6450468216285867 / 140737488355328)"
    by (simp only: ta val.simps jsnum.distinct if_False fl_installment_24)
  have eq: "handleCreateLoan_locals js exampleLoan = ?p"
    using t by (rule conjunct1 [OF conjunct2 [OF conjunct2 [OF conjunct2]]])
  have c: "client_id exampleLoan \<noteq> []" "client_id exampleLoan = ''7''"
    "payment_type exampleLoan = DAILY" "start_date exampleLoan = ''2024-03-01''"
    "late_fee_enabled exampleLoan = True"
    by (simp_all add: exampleLoan_def)
  have a: "acceptLoan (loan_row_of js exampleLoan ''u-1'') = None"
    by (simp add: acceptLoan_def)
  have "client_id exampleLoan \<noteq> [] \<and> ''u-1'' \<noteq> []
      \<and> acceptLoan (loan_row_of js exampleLoan ''u-1'') = None"
    using c(1) a by simp
  with t have "handleCreateLoan js acceptLoan (Some ''u-1'') exampleLoan =
        Inr \<lparr>row_client_id = client_id exampleLoan, row_capital = Num 1000,
             row_interest_rate = Num 10, row_payment_type = payment_type exampleLoan,
             row_installments_count = Num 24, row_start_date = start_date exampleLoan,
             row_late_fee_enabled = late_fee_enabled exampleLoan,
             row_status = ''ACTIVE'', row_created_by = ''u-1''\<rparr>"
    by blast
  then have row: "handleCreateLoan js acceptLoan (Some ''u-1'') exampleLoan =
        Inr \<lparr>row_client_id = ''7'', row_capital = Num 1000, row_interest_rate = Num 10,
             row_payment_type = DAILY, row_installments_count = Num 24,
             row_start_date = ''2024-03-01'', row_late_fee_enabled = True,
             row_status = ''ACTIVE'', row_created_by = ''u-1''\<rparr>"
    by (simp only: c(2-5))
  from exampleLoan_parsed h(4) ti ta iv eq c(1) a row show ?thesis
    by (intro conjI)
qed




text \<open>
  C10, as the claim states it, fails in one point: the preview can show Infinity for
  finite parsed inputs. For a capital of \<^verbatim>\<open>1e308\<close> at the rate \<^verbatim>\<open>1000\<close> in
  \<^verbatim>\<open>1\<close> installment the three parsed numbers are finite; the total interest, ten times
  the capital, is out of the range of the doubles, and the three results of the preview
  are Infinity.
\<close>

theorem preview_overflow_counterexample:
  "parseFloat js (capital hugeLoan) = Num (5010420900022432 * 2 ^ 971)
   \<and> parseFloat js (interest_rate hugeLoan) = Num 1000
   \<and> parseInt js (installments_count hugeLoan) = Num 1
   \<and> is_finite (parseFloat js (capital hugeLoan))
   \<and> is_finite (parseFloat js (interest_rate hugeLoan))
   \<and> is_finite (parseInt js (installments_count hugeLoan))
   \<and> totalInterest (calculationPreview js hugeLoan) = PosInf
   \<and> totalAmount (calculationPreview js hugeLoan) = PosInf
   \<and> installmentValue (calculationPreview js hugeLoan) = PosInf"
proof -
  have "is_finite (parseFloat js (capital hugeLoan))"
    "is_finite (parseFloat js (interest_rate hugeLoan))"
    "is_finite (parseInt js (installments_count hugeLoan))"
    unfolding hugeLoan_parsed by (simp_all only: is_finite.simps)
  moreover have "totalInterest (calculationPreview js hugeLoan) = PosInf"
    "totalAmount (calculationPreview js hugeLoan) = PosInf"
    "installmentValue (calculationPreview js hugeLoan) = PosInf"
    unfolding hugeLoan_preview by (simp_all only: amortization.simps)
  ultimately show ?thesis
    using hugeLoan_parsed by (intro conjI)
qed

text \<open>
  C10, amended. In the preview a capital or a rate that does not parse (\<^verbatim>\<open>parseFloat\<close>
  returns NaN) is replaced by 0, and a count that does not parse or parses to a zero is
  replaced by 1. The divisor of the preview is therefore never a zero and never NaN.
  When the parsed capital, rate and count are no infinities, the rate a double, none of
  the three results is NaN; and they are finite when moreover the capital and the rate
  are at most \<open>2^500\<close> in magnitude and the divisor at least 1, as a whole number that
  is no zero is. Greater finite inputs can give Infinity. A negative count is kept as
  it is.
\<close>

theorem preview_defaults:
  "(parseFloat b (capital f) = NaN \<longrightarrow> capitalN (calculationPreview b f) = Num 0)
   \<and> (parseFloat b (interest_rate f) = NaN \<longrightarrow> rateN (calculationPreview b f) = Num 0)
   \<and> (parseInt b (installments_count f) = NaN \<or> is_zero (parseInt b (installments_count f))
        \<longrightarrow> countN (calculationPreview b f) = Num 1)
   \<and> \<not> is_zero (countN (calculationPreview b f))
   \<and> countN (calculationPreview b f) \<noteq> NaN
   \<and> (\<not> is_inf (parseFloat b (capital f)) \<and> \<not> is_inf (parseFloat b (interest_rate f))
        \<and> \<bar>val (parseFloat b (interest_rate f))\<bar> < 2 ^ 1024
        \<and> \<not> is_inf (parseInt b (installments_count f))
        \<longrightarrow> totalInterest (calculationPreview b f) \<noteq> NaN
          \<and> totalAmount (calculationPreview b f) \<noteq> NaN
          \<and> installmentValue (calculationPreview b f) \<noteq> NaN)
   \<and> (\<not> is_inf (parseFloat b (capital f)) \<and> \<bar>val (parseFloat b (capital f))\<bar> \<le> 2 ^ 500
        \<and> \<not> is_inf (parseFloat b (interest_rate f))
        \<and> \<bar>val (parseFloat b (interest_rate f))\<bar> \<le> 2 ^ 500
        \<and> \<not> is_inf (parseInt b (installments_count f))
        \<and> 1 \<le> \<bar>val (countN (calculationPreview b f))\<bar>
        \<longrightarrow> is_finite (totalInterest (calculationPreview b f))
          \<and> is_finite (totalAmount (calculationPreview b f))
          \<and> is_finite (installmentValue (calculationPreview b f)))
   \<and> (parseInt b (installments_count f) = Num N \<and> N < 0
        \<longrightarrow> countN (calculationPreview b f) = Num N
          \<and> installmentValue (calculationPreview b f)
              = js_div (totalAmount (calculationPreview b f)) (Num N))"
proof -
  let ?p = "calculationPreview b f"
  let ?pc = "parseFloat b (capital f)"
  let ?pr = "parseFloat b (interest_rate f)"
  let ?pn = "parseInt b (installments_count f)"
  note cnt = preview_count_truthy [of b f]
  have one: "is_finite (Num 1)" and zero: "is_finite (Num 0)" by simp_all
  have nonan: "totalInterest ?p \<noteq> NaN \<and> totalAmount ?p \<noteq> NaN \<and> installmentValue ?p \<noteq> NaN"
    if "\<not> is_inf ?pc" "\<not> is_inf ?pr" "\<bar>val ?pr\<bar> < 2 ^ 1024" "\<not> is_inf ?pn"
  proof -
    have c: "is_finite (capitalN ?p)" and r: "is_finite (rateN ?p)"
      and n: "is_finite (countN ?p)"
      using that by (simp_all add: preview_fields(1-3) is_finite_js_or)
    have rv: "\<bar>val (rateN ?p)\<bar> < 2 ^ 1024"
      using that(3) by (simp add: preview_fields(2) val_js_or_zero)
    have d: "is_finite (js_div (rateN ?p) (Num 100))"
    proof (cases "is_zero (rateN ?p)")
      case True
      with r show ?thesis by (cases "rateN ?p") (simp_all add: js_div_def)
    next
      case False
      have "\<bar>val (rateN ?p) / 100\<bar> \<le> 2 powi 1023"
        using rv by simp
      then have "is_finite (fl (val (rateN ?p) / 100))"
        by (rule fl_pow_bound) simp_all
      with False r show ?thesis by (cases "rateN ?p") (simp_all add: js_div_def)
    qed
    have ti: "totalInterest ?p \<noteq> NaN"
      using c d by (simp add: preview_fields(4) js_mul_not_NaN)
    then have ta: "totalAmount ?p \<noteq> NaN"
      using c by (simp add: preview_fields(5) js_add_not_NaN)
    then have "installmentValue ?p \<noteq> NaN"
      using n cnt by (simp add: preview_fields(6) js_div_not_NaN)
    with ti ta show ?thesis by simp
  qed
  have fin: "is_finite (totalInterest ?p) \<and> is_finite (totalAmount ?p)
      \<and> is_finite (installmentValue ?p)"
    if "\<not> is_inf ?pc" "\<bar>val ?pc\<bar> \<le> 2 ^ 500" "\<not> is_inf ?pr" "\<bar>val ?pr\<bar> \<le> 2 ^ 500"
      "\<not> is_inf ?pn" "1 \<le> \<bar>val (countN ?p)\<bar>"
  proof -
    have c: "is_finite (capitalN ?p)" and r: "is_finite (rateN ?p)"
      and n: "is_finite (countN ?p)"
      using that by (simp_all add: preview_fields(1-3) is_finite_js_or)
    have cv: "\<bar>val (capitalN ?p)\<bar> \<le> 2 ^ 500" and rv: "\<bar>val (rateN ?p)\<bar> \<le> 2 ^ 500"
      using that(2,4) by (simp_all only: preview_fields(1,2) val_js_or_zero)
    note a = amortization_finite [OF c cv r rv n that(6)]
    have "is_finite (totalInterest ?p)"
      unfolding preview_fields(4) by (rule a(1))
    moreover have "is_finite (totalAmount ?p)"
      unfolding preview_fields(5) preview_fields(4) by (rule a(2))
    moreover have "is_finite (installmentValue ?p)"
      unfolding preview_fields(6) preview_fields(5) preview_fields(4) by (rule a(3))
    ultimately show ?thesis by simp
  qed
  have neg: "countN ?p = Num N \<and> installmentValue ?p = js_div (totalAmount ?p) (Num N)"
    if "?pn = Num N" "N < 0"
  proof -
    have "countN ?p = Num N"
      using that by (simp add: preview_fields(3) js_or_Num)
    then show ?thesis by (simp add: preview_fields(6))
  qed
  have dflt: "(?pc = NaN \<longrightarrow> capitalN ?p = Num 0) \<and> (?pr = NaN \<longrightarrow> rateN ?p = Num 0)
      \<and> (?pn = NaN \<or> is_zero ?pn \<longrightarrow> countN ?p = Num 1)"
    by (auto simp add: preview_fields(1-3) js_or_def truthy_def)
  have div: "\<not> is_zero (countN ?p) \<and> countN ?p \<noteq> NaN"
    using cnt by (simp add: truthy_def)
  show ?thesis
    using dflt div nonan fin neg by blast
qed

theorem preview_defaults_witness:
  "parseFloat js (capital blankLoan) = NaN
   \<and> parseFloat js (interest_rate blankLoan) = NaN
   \<and> parseInt js (installments_count blankLoan) = NaN
   \<and> capitalN (calculationPreview js blankLoan) = Num 0
   \<and> rateN (calculationPreview js blankLoan) = Num 0
   \<and> countN (calculationPreview js blankLoan) = Num 1
   \<and> is_finite (installmentValue (calculationPreview js blankLoan))
   \<and> is_zero (parseInt js (installments_count zeroCountLoan))
   \<and> countN (calculationPreview js zeroCountLoan) = Num 1
   \<and> parseFloat js (capital negativeCountLoan) = Num 1000
   \<and> parseFloat js (interest_rate negativeCountLoan) = Num 10
   \<and> parseInt js (installments_count negativeCountLoan) = Num (- 3)
   \<and> countN (calculationPreview js negativeCountLoan) = Num (- 3)
   \<and> installmentValue (calculationPreview js negativeCountLoan) \<noteq> NaN
   \<and> is_finite (installmentValue (calculationPreview js negativeCountLoan))"
proof -
  note b = preview_defaults [of js blankLoan 0]
  note z = preview_defaults [of js zeroCountLoan 0]
  note n = preview_defaults [of js negativeCountLoan "- 3"]
  have b1: "capitalN (calculationPreview js blankLoan) = Num 0"
    "rateN (calculationPreview js blankLoan) = Num 0"
    "countN (calculationPreview js blankLoan) = Num 1"
    using b blankLoan_parsed by simp_all
  have "\<not> is_inf (parseFloat js (capital blankLoan))
      \<and> \<bar>val (parseFloat js (capital blankLoan))\<bar> \<le> 2 ^ 500
      \<and> \<not> is_inf (parseFloat js (interest_rate blankLoan))
      \<and> \<bar>val (parseFloat js (interest_rate blankLoan))\<bar> \<le> 2 ^ 500
      \<and> \<not> is_inf (parseInt js (installments_count blankLoan))
      \<and> 1 \<le> \<bar>val (countN (calculationPreview js blankLoan))\<bar>"
    by (simp add: blankLoan_parsed b1)
  with b have b2: "is_finite (installmentValue (calculationPreview js blankLoan))"
    by blast
  have z0: "is_zero (parseInt js (installments_count zeroCountLoan))"
    by (simp add: zeroCountLoan_parsed)
  with z have z1: "countN (calculationPreview js zeroCountLoan) = Num 1"
    by blast
  have "parseInt js (installments_count negativeCountLoan) = Num (- 3) \<and> (- 3 :: rat) < 0"
    by (simp add: negativeCountLoan_parsed)
  with n have n1: "countN (calculationPreview js negativeCountLoan) = Num (- 3)"
    by blast
  have "\<not> is_inf (parseFloat js (capital negativeCountLoan))
      \<and> \<not> is_inf (parseFloat js (interest_rate negativeCountLoan))
      \<and> \<bar>val (parseFloat js (interest_rate negativeCountLoan))\<bar> < 2 ^ 1024
      \<and> \<not> is_inf (parseInt js (installments_count negativeCountLoan))"
    by (simp add: negativeCountLoan_parsed)
  with n have n2: "installmentValue (calculationPreview js negativeCountLoan) \<noteq> NaN"
    by blast
  have "\<not> is_inf (parseFloat js (capital negativeCountLoan))
      \<and> \<bar>val (parseFloat js (capital negativeCountLoan))\<bar> \<le> 2 ^ 500
      \<and> \<not> is_inf (parseFloat js (interest_rate negativeCountLoan))
      \<and> \<bar>val (parseFloat js (interest_rate negativeCountLoan))\<bar> \<le> 2 ^ 500
      \<and> \<not> is_inf (parseInt js (installments_count negativeCountLoan))
      \<and> 1 \<le> \<bar>val (countN (calculationPreview js negativeCountLoan))\<bar>"
    by (simp add: negativeCountLoan_parsed n1)
  with n have n3: "is_finite (installmentValue (calculationPreview js negativeCountLoan))"
    by blast
  from b1 b2 z0 z1 n1 n2 n3 blankLoan_parsed negativeCountLoan_parsed show ?thesis
    by (intro conjI)
qed

text \<open>
  C2, as the claim states it, fails: no computation rejects a count. With the count
  \<^verbatim>\<open>0\<close>, a selected client, a signed-in user and an accepting service,
  \<^verbatim>\<open>handleCreateLoan\<close> succeeds and inserts the count 0, and the installment it
  computed on the way is Infinity; the preview of the same form returns 1100 for a
  count of 1.
\<close>

theorem zero_count_counterexample:
  "handleCreateLoan js acceptLoan (Some ''u-1'') zeroCountLoan
     = Inr (loan_row_of js zeroCountLoan ''u-1'')
   \<and> row_installments_count (loan_row_of js zeroCountLoan ''u-1'') = Num 0
   \<and> installmentValue (handleCreateLoan_locals js zeroCountLoan) = PosInf
   \<and> countN (calculationPreview js zeroCountLoan) = Num 1
   \<and> installmentValue (calculationPreview js zeroCountLoan) = Num 1100"
proof -
  have "handleCreateLoan js acceptLoan (Some ''u-1'') zeroCountLoan
      = Inr (loan_row_of js zeroCountLoan ''u-1'')"
    by (simp add: handleCreateLoan_def acceptLoan_def zeroCountLoan_def exampleLoan_def)
  moreover have "row_installments_count (loan_row_of js zeroCountLoan ''u-1'') = Num 0"
    by (simp add: loan_row_of_def Let_def locals_fields zeroCountLoan_parsed)
  moreover have "installmentValue (handleCreateLoan_locals js zeroCountLoan) = PosInf"
    by (simp add: zeroCountLoan_locals)
  moreover have "countN (calculationPreview js zeroCountLoan) = Num 1"
    and "installmentValue (calculationPreview js zeroCountLoan) = Num 1100"
    by (simp_all add: zeroCountLoan_preview)
  ultimately show ?thesis by (intro conjI)
qed

text \<open>
  C2, amended. A count that is zero or negative is never rejected, whatever the
  principal and the rate. In the preview a count that parses to a zero is replaced by 1
  before the division, so that the installment is the total amount; a negative count
  \<open>N\<close> is kept, and the installment is the total amount divided by \<open>N\<close>. The creation
  of a loan, once a client is selected and a user is signed in, goes on to the insert
  with the count as it was parsed, and fails only if the insert does; when the count
  is a zero and the total amount it computed is a positive number, the installment it
  computed is an infinity, with the sign of the zero.
\<close>

theorem count_is_never_rejected:
  "(is_zero (parseInt b (installments_count f)) \<longrightarrow>
        countN (calculationPreview b f) = Num 1
      \<and> installmentValue (calculationPreview b f) = totalAmount (calculationPreview b f))
   \<and> (parseInt b (installments_count f) = Num N \<and> N < 0 \<longrightarrow>
        countN (calculationPreview b f) = Num N
      \<and> installmentValue (calculationPreview b f)
          = js_div (totalAmount (calculationPreview b f)) (Num N))
   \<and> (client_id f \<noteq> [] \<and> uid \<noteq> [] \<longrightarrow>
        handleCreateLoan b insertLoan (Some uid) f
          = (case insertLoan (loan_row_of b f uid) of
               Some msg \<Rightarrow> Inl (CreateFailed msg)
             | None \<Rightarrow> Inr (loan_row_of b f uid))
      \<and> row_installments_count (loan_row_of b f uid) = parseInt b (installments_count f))
   \<and> (is_zero (parseInt b (installments_count f))
        \<and> totalAmount (handleCreateLoan_locals b f) = Num T \<and> 0 < T \<longrightarrow>
        installmentValue (handleCreateLoan_locals b f)
          = signed_inf (sign_neg (parseInt b (installments_count f))))"
proof -
  let ?p = "calculationPreview b f"
  let ?pn = "parseInt b (installments_count f)"
  have zero: "countN ?p = Num 1 \<and> installmentValue ?p = totalAmount ?p" if "is_zero ?pn"
  proof -
    have "\<not> truthy ?pn"
      using that by (simp add: truthy_def)
    then have "countN ?p = Num 1"
      by (simp add: preview_fields(3) js_or_default)
    then show ?thesis
      by (simp add: preview_fields(6) preview_fields(5) js_div_one_add)
  qed
  have neg: "countN ?p = Num N \<and> installmentValue ?p = js_div (totalAmount ?p) (Num N)"
    if "?pn = Num N" "N < 0"
  proof -
    have "countN ?p = Num N"
      using that by (simp add: preview_fields(3) js_or_Num)
    then show ?thesis by (simp add: preview_fields(6))
  qed
  have row: "row_installments_count (loan_row_of b f uid) = ?pn"
    by (simp add: loan_row_of_def Let_def locals_fields)
  have run: "handleCreateLoan b insertLoan (Some uid) f
      = (case insertLoan (loan_row_of b f uid) of
           Some msg \<Rightarrow> Inl (CreateFailed msg)
         | None \<Rightarrow> Inr (loan_row_of b f uid))"
    if "client_id f \<noteq> []" "uid \<noteq> []"
    using that by (simp add: handleCreateLoan_def)
  have inf: "installmentValue (handleCreateLoan_locals b f) = signed_inf (sign_neg ?pn)"
    if "is_zero ?pn" "totalAmount (handleCreateLoan_locals b f) = Num T" "0 < T"
    using that by (cases ?pn) (simp_all add: locals_fields(6) js_div_def)
  show ?thesis
    using zero neg row run inf by blast
qed

theorem count_is_never_rejected_witness:
  "is_zero (parseInt js (installments_count zeroCountLoan))
   \<and> countN (calculationPreview js zeroCountLoan) = Num 1
   \<and> installmentValue (calculationPreview js zeroCountLoan) = Num 1100
   \<and> parseInt js (installments_count negativeCountLoan) = Num (- 3)
   \<and> countN (calculationPreview js negativeCountLoan) = Num (- 3)
   \<and> installmentValue (calculationPreview js negativeCountLoan)
        = Num (- (6450468216285867 / 17592186044416))
   \<and> client_id zeroCountLoan \<noteq> []
   \<and> handleCreateLoan js acceptLoan (Some ''u-1'') zeroCountLoan
        = Inr (loan_row_of js zeroCountLoan ''u-1'')
   \<and> row_installments_count (loan_row_of js zeroCountLoan ''u-1'') = Num 0
   \<and> totalAmount (handleCreateLoan_locals js zeroCountLoan) = Num 1100
   \<and> installmentValue (handleCreateLoan_locals js zeroCountLoan) = PosInf"
proof -
  let ?z = "calculationPreview js zeroCountLoan"
  let ?n = "calculationPreview js negativeCountLoan"
  note z = count_is_never_rejected [of js zeroCountLoan 0 "''u-1''" acceptLoan 1100]
  note n = count_is_never_rejected [of js negativeCountLoan "- 3" "''u-1''" acceptLoan 1100]
  have z0: "is_zero (parseInt js (installments_count zeroCountLoan))"
    by (simp add: zeroCountLoan_parsed)
  have zt: "totalAmount ?z = Num 1100"
    by (simp add: zeroCountLoan_preview)
  from z z0 have z1: "countN ?z = Num 1" and "installmentValue ?z = totalAmount ?z"
    by blast+
  then have z2: "installmentValue ?z = Num 1100"
    by (simp only: zt)
  have nt: "totalAmount ?n = Num 1100"
    by (simp add: negativeCountLoan_preview)
  have "parseInt js (installments_count negativeCountLoan) = Num (- 3) \<and> (- 3 :: rat) < 0"
    by (simp add: negativeCountLoan_parsed)
  with n have n1: "countN ?n = Num (- 3)"
    and "installmentValue ?n = js_div (totalAmount ?n) (Num (- 3))"
    by blast+
  then have "installmentValue ?n = js_div (Num 1100) (Num (- 3))"
    by (simp only: nt)
  moreover have "js_div (Num 1100) (Num (- 3)) = fl (- (1100 / 3))"
    by (simp add: js_div_def)
  ultimately have n2: "installmentValue ?n = Num (- (6450468216285867 / 17592186044416))"
    by (simp only: fl_installment_minus_3)
  have c: "client_id zeroCountLoan \<noteq> [] \<and> ''u-1'' \<noteq> []"
    by (simp add: zeroCountLoan_def exampleLoan_def)
  with z have "handleCreateLoan js acceptLoan (Some ''u-1'') zeroCountLoan
      = (case acceptLoan (loan_row_of js zeroCountLoan ''u-1'') of
           Some msg \<Rightarrow> Inl (CreateFailed msg)
         | None \<Rightarrow> Inr (loan_row_of js zeroCountLoan ''u-1''))"
    and r0: "row_installments_count (loan_row_of js zeroCountLoan ''u-1'')
      = parseInt js (installments_count zeroCountLoan)"
    by blast+
  then have r1: "handleCreateLoan js acceptLoan (Some ''u-1'') zeroCountLoan
      = Inr (loan_row_of js zeroCountLoan ''u-1'')"
    by (simp add: acceptLoan_def)
  have r2: "row_installments_count (loan_row_of js zeroCountLoan ''u-1'') = Num 0"
    using r0 by (simp only: zeroCountLoan_parsed)
  have lt: "totalAmount (handleCreateLoan_locals js zeroCountLoan) = Num 1100"
    by (simp add: zeroCountLoan_locals)
  with z z0 have "installmentValue (handleCreateLoan_locals js zeroCountLoan)
      = signed_inf (sign_neg (parseInt js (installments_count zeroCountLoan)))"
    by simp
  then have l1: "installmentValue (handleCreateLoan_locals js zeroCountLoan) = PosInf"
    by (simp add: zeroCountLoan_parsed signed_inf_def)
  from z0 z1 z2 negativeCountLoan_parsed(3) n1 n2 c lt l1 r1 r2 show ?thesis
    by (intro conjI) simp_all
qed


section \<open>Days late\<close>

text \<open>
  C3, as the claim states it, fails: nothing clamps the result. One millisecond before
  the due date \<^verbatim>\<open>2024-03-01\<close> begins, \<^verbatim>\<open>getDaysLate\<close> returns -1, which is not
  \<^verbatim>\<open>>= 0\<close>.
\<close>

theorem getDaysLate_future_counterexample:
  "getDaysLate js eve_of_due ''2024-03-01'' = Num (- 1)
   \<and> \<not> js_ge (getDaysLate js eve_of_due ''2024-03-01'') (Num 0)"
proof -
  have "getDaysLate js eve_of_due ''2024-03-01'' = Num (- 1)"
    by (simp add: getDaysLate_Num [OF due_parsed] eve_of_due_def)
  then show ?thesis by (simp add: js_ge_def)
qed

text \<open>
  C3, amended. For a due date \<open>D\<close> and a reading \<open>now\<close> of the clock, both in
  milliseconds, \<^verbatim>\<open>getDaysLate\<close> is the floor of \<open>(now - D)\<close> divided by one day, that
  is \<open>(now - D) div 86400000\<close>. It is not negative when \<open>D \<le> now\<close>, and it is
  negative, -1 at most, when \<open>D > now\<close>: a due date in the future is not clamped to 0.
\<close>

theorem getDaysLate_floor:
  assumes "dateTime b date = Num (of_int D)"
  shows "getDaysLate b now date = Num (of_int ((now - D) div 86400000))
       \<and> (D \<le> now \<longrightarrow> 0 \<le> (now - D) div 86400000)
       \<and> (now < D \<longrightarrow> (now - D) div 86400000 \<le> - 1)"
proof -
  have "0 \<le> (now - D) div 86400000" if "D \<le> now"
    using that by (simp add: pos_imp_zdiv_nonneg_iff)
  moreover have "(now - D) div 86400000 \<le> - 1" if "now < D"
  proof -
    have "(now - D) div 86400000 < 0"
      using that by (simp add: div_neg_pos_less0)
    then show ?thesis by simp
  qed
  ultimately show ?thesis
    using getDaysLate_Num [OF assms] by simp
qed

theorem getDaysLate_floor_witness:
  "dateTime js ''2024-03-01'' = Num (of_int 1709251200000)
   \<and> getDaysLate js noon_15 ''2024-03-01'' = Num 14
   \<and> getDaysLate js eve_of_due ''2024-03-01'' = Num (- 1)"
  using getDaysLate_floor [OF due_parsed, of noon_15] getDaysLate_floor [OF due_parsed, of eve_of_due]
    due_parsed
  by (simp add: noon_15_def eve_of_due_def)


section \<open>Tiers and the filter\<close>

lemma classify_int:
  "classify (Num (of_int d)) = (if 30 \<le> d then CRITICAL else if 7 \<le> d then WARNING else CURRENT)"
  by (simp add: classify_def isCritical_def isWarning_def js_ge_def)

lemma isCritical_isWarning: "isCritical x \<Longrightarrow> isWarning x"
  by (cases x) (simp_all add: isCritical_def isWarning_def js_ge_def)

lemma filterMatches_int:
  "filterMatches (Num (of_int t)) x \<longleftrightarrow> (t \<in> {3, 7, 30} \<longrightarrow> js_ge x (Num (of_int t)))"
  using js_strict_eq_int [of t 3] js_strict_eq_int [of t 7] js_strict_eq_int [of t 30]
  by (auto simp add: filterMatches_def)

text \<open>Each of the four styles is the one of the tier.\<close>

lemma styles_follow_tier:
  "cardClass x = (case classify x of
       CRITICAL \<Rightarrow> ''shadow-glow-rose border-fin-rose/20''
     | WARNING \<Rightarrow> ''shadow-glow-amber border-fin-amber/20''
     | CURRENT \<Rightarrow> ''shadow-glow-blue'')"
  "badgeClass x = (case classify x of
       CRITICAL \<Rightarrow> ''bg-fin-rose/20 text-fin-rose border-fin-rose/30''
     | WARNING \<Rightarrow> ''bg-fin-amber/20 text-fin-amber border-fin-amber/30''
     | CURRENT \<Rightarrow> ''bg-white/5 text-slate-300 border-white/10'')"
  "debtClass x = (case classify x of
       CRITICAL \<Rightarrow> ''text-fin-rose'' | WARNING \<Rightarrow> ''text-fin-amber'' | CURRENT \<Rightarrow> ''text-white'')"
  "clockClass x = (case classify x of
       CRITICAL \<Rightarrow> ''text-fin-rose'' | WARNING \<Rightarrow> ''text-fin-amber'' | CURRENT \<Rightarrow> ''text-fin-blue'')"
  by (simp_all add: cardClass_def badgeClass_def debtClass_def clockClass_def classify_def)

text \<open>
  C4. For an integer number \<open>d\<close> of days the tier is \<open>CRITICAL\<close> exactly when
  \<open>d \<ge> 30\<close>, \<open>WARNING\<close> exactly when \<open>7 \<le> d < 30\<close> and \<open>CURRENT\<close> otherwise; so 6 is
  \<open>CURRENT\<close>, 7 and 29 are \<open>WARNING\<close> and 30 is \<open>CRITICAL\<close>. The test for
  \<open>CRITICAL\<close> comes first: for any number of days that passes it the tier is
  \<open>CRITICAL\<close>, although the test for \<open>WARNING\<close> holds as well.
\<close>

theorem classify_tiers:
  "(classify (Num (of_int d)) = CRITICAL \<longleftrightarrow> 30 \<le> d)
   \<and> (classify (Num (of_int d)) = WARNING \<longleftrightarrow> 7 \<le> d \<and> d < 30)
   \<and> (classify (Num (of_int d)) = CURRENT \<longleftrightarrow> d < 7)
   \<and> classify (Num 6) = CURRENT
   \<and> classify (Num 7) = WARNING
   \<and> classify (Num 29) = WARNING
   \<and> classify (Num 30) = CRITICAL
   \<and> (classify x = CRITICAL \<longleftrightarrow> isCritical x)
   \<and> (isCritical x \<and> isWarning x \<longleftrightarrow> isCritical x)"
proof -
  have "classify (Num 6) = CURRENT" "classify (Num 7) = WARNING"
    "classify (Num 29) = WARNING" "classify (Num 30) = CRITICAL"
    using classify_int [of 6] classify_int [of 7] classify_int [of 29] classify_int [of 30]
    by simp_all
  moreover have "classify x = CRITICAL \<longleftrightarrow> isCritical x"
    by (simp add: classify_def)
  moreover have "isCritical x \<and> isWarning x \<longleftrightarrow> isCritical x"
    using isCritical_isWarning [of x] by blast
  ultimately show ?thesis
    by (simp add: classify_int)
qed

text \<open>
  C5. For a threshold among the buttons 0, 3, 7 and 30 the filter keeps an entry
  exactly when the threshold is 0 or the days reach the threshold; so 5 days pass the
  threshold 3, 2 days do not, and the threshold 0 keeps every entry, whatever its days.
  The list shown is the list of the entries so kept.
\<close>

theorem filterMatches_threshold:
  assumes "t \<in> set filterButtons"
  shows "(filterMatches (Num (of_int t)) (Num (of_int d)) \<longleftrightarrow> t = 0 \<or> t \<le> d)
       \<and> (filterMatches (Num (of_int t)) x \<longleftrightarrow> t = 0 \<or> js_ge x (Num (of_int t)))
       \<and> filterMatches (Num 0) x
       \<and> filteredLate b now (Num (of_int t)) lps
           = filter (\<lambda>lp. t = 0 \<or> js_ge (getDaysLate b now (oldestDueDate lp)) (Num (of_int t))) lps"
proof -
  have t: "t = 0 \<or> t = 3 \<or> t = 7 \<or> t = 30"
    using assms by (simp add: filterButtons_def)
  have g: "filterMatches (Num (of_int t)) x \<longleftrightarrow> t = 0 \<or> js_ge x (Num (of_int t))"
    using t filterMatches_int [of t x] by auto
  have "filterMatches (Num (of_int t)) (Num (of_int d)) \<longleftrightarrow> t = 0 \<or> t \<le> d"
    using t filterMatches_int [of t "Num (of_int d)"] js_ge_int [of d t] by auto
  moreover have "filterMatches (Num 0) x"
    using filterMatches_int [of 0 x] by simp
  moreover have "filteredLate b now (Num (of_int t)) lps
      = filter (\<lambda>lp. t = 0 \<or> js_ge (getDaysLate b now (oldestDueDate lp)) (Num (of_int t))) lps"
    unfolding filteredLate_def using t filterMatches_int [of t] by auto
  ultimately show ?thesis
    using g by blast
qed

theorem filterMatches_threshold_witness:
  "3 \<in> set filterButtons
   \<and> 0 \<in> set filterButtons
   \<and> filterMatches (Num 3) (Num 5)
   \<and> \<not> filterMatches (Num 3) (Num 2)
   \<and> filterMatches (Num 0) (Num (- 4))
   \<and> filterMatches (Num 0) NaN"
proof -
  have b: "3 \<in> set filterButtons" "0 \<in> set filterButtons"
    by (simp_all add: filterButtons_def)
  from filterMatches_threshold [OF b(1), of 5 NaN] filterMatches_threshold [OF b(1), of 2 NaN]
    filterMatches_threshold [OF b(2), of "- 4" NaN] b
  show ?thesis by simp
qed


text \<open>
  C8. The tier never falls as the days grow: for integers \<open>d1 \<le> d2\<close> the tier of
  \<open>d1\<close> is at most the tier of \<open>d2\<close> in the order \<open>CURRENT < WARNING < CRITICAL\<close>.
  The thresholds are the constants 3, 7 and 30 and no others: the tier of \<open>d\<close> differs
  from the tier of \<open>d - 1\<close> exactly at 7 and at 30, and the answer of the filter, for
  some value of the filter, differs between \<open>d - 1\<close> and \<open>d\<close> exactly at 3, 7 and 30.
\<close>

theorem tiers_monotone_thresholds_fixed:
  assumes "d1 \<le> d2"
  shows "severity (classify (Num (of_int d1))) \<le> severity (classify (Num (of_int d2)))
       \<and> (classify (Num (of_int (d - 1))) \<noteq> classify (Num (of_int d)) \<longleftrightarrow> d = 7 \<or> d = 30)
       \<and> ((\<exists>t. filterMatches (Num (of_int t)) (Num (of_int (d - 1)))
                 \<noteq> filterMatches (Num (of_int t)) (Num (of_int d)))
            \<longleftrightarrow> d = 3 \<or> d = 7 \<or> d = 30)"
proof -
  have mono: "severity (classify (Num (of_int d1))) \<le> severity (classify (Num (of_int d2)))"
    using assms by (simp add: classify_int)
  have steps: "classify (Num (of_int (d - 1))) \<noteq> classify (Num (of_int d)) \<longleftrightarrow> d = 7 \<or> d = 30"
    unfolding classify_int by auto
  have flt: "filterMatches (Num (of_int t)) (Num (of_int k)) \<longleftrightarrow> (t \<in> {3, 7, 30} \<longrightarrow> t \<le> k)"
    for t k
    using filterMatches_int [of t "Num (of_int k)"] js_ge_int [of k t] by simp
  have "(\<exists>t. filterMatches (Num (of_int t)) (Num (of_int (d - 1)))
            \<noteq> filterMatches (Num (of_int t)) (Num (of_int d)))
        \<longleftrightarrow> d = 3 \<or> d = 7 \<or> d = 30"
  proof
    assume "\<exists>t. filterMatches (Num (of_int t)) (Num (of_int (d - 1)))
        \<noteq> filterMatches (Num (of_int t)) (Num (of_int d))"
    then obtain t where "(t \<in> {3, 7, 30} \<longrightarrow> t \<le> d - 1) \<noteq> (t \<in> {3, 7, 30} \<longrightarrow> t \<le> d)"
      unfolding flt by blast
    then have "t \<in> {3, 7, 30}" and "t = d"
      by auto
    then show "d = 3 \<or> d = 7 \<or> d = 30" by auto
  next
    assume "d = 3 \<or> d = 7 \<or> d = 30"
    then have "(d \<in> {3, 7, 30} \<longrightarrow> d \<le> d - 1) \<noteq> (d \<in> {3, 7, 30} \<longrightarrow> d \<le> d)"
      by auto
    then show "\<exists>t. filterMatches (Num (of_int t)) (Num (of_int (d - 1)))
        \<noteq> filterMatches (Num (of_int t)) (Num (of_int d))"
      unfolding flt by blast
  qed
  with mono steps show ?thesis by blast
qed

theorem tiers_monotone_thresholds_fixed_witness:
  "(6 :: int) \<le> 45
   \<and> severity (classify (Num 6)) \<le> severity (classify (Num 45))
   \<and> classify (Num 29) \<noteq> classify (Num 30)
   \<and> classify (Num 30) = classify (Num 31)"
  using tiers_monotone_thresholds_fixed [of 6 45 30] tiers_monotone_thresholds_fixed [of 6 45 31]
  by simp


section \<open>What the computations depend on\<close>

text \<open>
  C7, as the claim states it, fails for the days late: \<^verbatim>\<open>getDaysLate\<close> takes the due
  date alone and reads the clock inside. Two calls with the same date, one at noon of
  2024-03-15 and one a day later, return 14 and 15.
\<close>

theorem getDaysLate_clock_counterexample:
  "getDaysLate js noon_15 ''2024-03-01'' = Num 14
   \<and> getDaysLate js noon_16 ''2024-03-01'' = Num 15
   \<and> getDaysLate js noon_15 ''2024-03-01'' \<noteq> getDaysLate js noon_16 ''2024-03-01''"
  by (simp add: getDaysLate_Num [OF due_parsed] noon_15_def noon_16_def)

text \<open>
  C7, amended. The amortization computations are functions of the three strings of
  the form and of the two parsers: two forms that agree on capital, rate and count
  give the same six numbers, whatever their other fields and whatever the
  \<^verbatim>\<open>Date\<close> builtin. The days late are a function of the parsed due date and of the
  reading of the clock that \<^verbatim>\<open>getDaysLate\<close> takes itself: equal readings and equal
  parsed dates give equal results, and a reading one day later gives one day more. The
  tier and the filter are functions of the days.
\<close>

theorem computations_depend_on:
  "(parseFloat b = parseFloat b' \<and> parseInt b = parseInt b'
      \<and> capital f = capital g \<and> interest_rate f = interest_rate g
      \<and> installments_count f = installments_count g
      \<longrightarrow> calculationPreview b f = calculationPreview b' g
        \<and> handleCreateLoan_locals b f = handleCreateLoan_locals b' g)
   \<and> (dateTime b date = dateTime b' date'
      \<longrightarrow> getDaysLate b now date = getDaysLate b' now date')
   \<and> (dateTime b date = Num (of_int D)
      \<longrightarrow> getDaysLate b (now + 86400000) date = Num (val (getDaysLate b now date) + 1))"
proof -
  have "getDaysLate b (now + 86400000) date = Num (val (getDaysLate b now date) + 1)"
    if d: "dateTime b date = Num (of_int D)"
  proof -
    have "(now + 86400000 - D) div 86400000 = (now - D) div 86400000 + 1"
      by (simp add: algebra_simps)
    then show ?thesis
      by (simp add: getDaysLate_Num [OF d])
  qed
  then show ?thesis
    by (simp add: calculationPreview_def handleCreateLoan_locals_def getDaysLate_def)
qed

theorem computations_depend_on_witness:
  "capital exampleLoan = capital otherClientLoan
   \<and> interest_rate exampleLoan = interest_rate otherClientLoan
   \<and> installments_count exampleLoan = installments_count otherClientLoan
   \<and> exampleLoan \<noteq> otherClientLoan
   \<and> calculationPreview js exampleLoan = calculationPreview js otherClientLoan
   \<and> dateTime js ''2024-03-01'' = Num (of_int 1709251200000)
   \<and> getDaysLate js (noon_15 + 86400000) ''2024-03-01''
        = Num (val (getDaysLate js noon_15 ''2024-03-01'') + 1)"
proof -
  have e: "capital exampleLoan = capital otherClientLoan"
    "interest_rate exampleLoan = interest_rate otherClientLoan"
    "installments_count exampleLoan = installments_count otherClientLoan"
    "exampleLoan \<noteq> otherClientLoan"
    by (simp_all add: otherClientLoan_def exampleLoan_def)
  from computations_depend_on
    [of js js exampleLoan otherClientLoan "''2024-03-01''" "''2024-03-01''" noon_15 1709251200000]
    e due_parsed
  show ?thesis by simp
qed


section \<open>The role of a new account\<close>

text \<open>
  C9. On sign-up the role is \<open>ADMIN\<close> exactly when the admin box is checked and the
  code entered is the string \<^verbatim>\<open>admin123\<close>, and \<open>COLLECTOR\<close> in every other case.
  That role is the one sent with the sign-up request and the one written to the
  profile of the account created.
\<close>

theorem signUp_role:
  "(signUpRole st = ADMIN \<longleftrightarrow> showAdminCode st \<and> adminCode st = ''admin123'')
   \<and> (signUpRole st = COLLECTOR \<longleftrightarrow> \<not> (showAdminCode st \<and> adminCode st = ''admin123''))
   \<and> data_role (signUpRequest_of st) = signUpRole st
   \<and> profile_role (profile_row_of uid st) = signUpRole st
   \<and> (handleSubmit_signUp signUp st = Created req row msg
        \<longrightarrow> data_role req = signUpRole st \<and> profile_role row = signUpRole st)"
proof -
  have "data_role req = signUpRole st \<and> profile_role row = signUpRole st"
    if "handleSubmit_signUp signUp st = Created req row msg"
    using that
    by (auto simp add: handleSubmit_signUp_def Let_def signUpRequest_of_def profile_row_of_def
        split: sum.splits option.splits)
  then show ?thesis
    by (simp add: signUpRole_def signUpRequest_of_def profile_row_of_def)
qed

theorem signUp_role_witness:
  "handleSubmit_signUp acceptSignUp adminSignUp
     = Created (signUpRequest_of adminSignUp) (profile_row_of ''user-1'' adminSignUp)
         ''Conta ADMIN criada com sucesso! Verifique seu e-mail para confirmar.''
   \<and> data_role (signUpRequest_of adminSignUp) = ADMIN
   \<and> profile_role (profile_row_of ''user-1'' adminSignUp) = ADMIN
   \<and> signUpRole (adminSignUp\<lparr>adminCode := ''Admin123''\<rparr>) = COLLECTOR
   \<and> signUpRole (adminSignUp\<lparr>showAdminCode := False\<rparr>) = COLLECTOR"
proof -
  have a: "signUpRole adminSignUp = ADMIN"
    using signUp_role [of adminSignUp] by (simp add: adminSignUp_def)
  have h: "handleSubmit_signUp acceptSignUp adminSignUp
      = Created (signUpRequest_of adminSignUp) (profile_row_of ''user-1'' adminSignUp)
          ''Conta ADMIN criada com sucesso! Verifique seu e-mail para confirmar.''"
    by (simp add: handleSubmit_signUp_def Let_def acceptSignUp_def a)
  from signUp_role [of adminSignUp "''user-1''" acceptSignUp "signUpRequest_of adminSignUp"
      "profile_row_of ''user-1'' adminSignUp"
      "''Conta ADMIN criada com sucesso! Verifique seu e-mail para confirmar.''"]
    signUp_role [of "adminSignUp\<lparr>adminCode := ''Admin123''\<rparr>"]
    signUp_role [of "adminSignUp\<lparr>showAdminCode := False\<rparr>"] h a
  show ?thesis by (simp add: adminSignUp_def)
qed


end
